theory Spec2Isabelle
  imports Main "HOL-Library.Sublist"
begin

section \<open>The provisioning script \<^verbatim>\<open>src/provision.py\<close> as a shallow embedding\<close>

text \<open>
  The script talks to a remote provider through five SDK operations and sleeps between
  status polls. A run is modelled as a function on the history of the run: the list of
  everything the run has done so far (function entries, requests sent to the provider,
  sleeps). The provider is a parameter: for each operation, a function from the history
  and the request's arguments to the answer, which is either a \<^verbatim>\<open>ClientError\<close> with its
  message or a value (a provider that ignores the function entries in the history is a
  special case). Standard output is not modelled; the entry of every function of the
  script is recorded in the history instead. Building the SDK client (\<^verbatim>\<open>_get_conn\<close>,
  \<^verbatim>\<open>_get_conn2\<close>) sends nothing to the provider and leaves no mark in the history.
\<close>

subsection \<open>Data\<close>

text \<open>One element of \<^verbatim>\<open>describe_stacks(...)['Stacks']\<close>, with the two keys the script reads.\<close>

record stack =
  StackName :: string
  StackStatus :: string

text \<open>
  The exceptions of a run. \<^verbatim>\<open>sys.exit(err)\<close> raises \<^verbatim>\<open>SystemExit\<close>, which is not a
  \<^verbatim>\<open>ClientError\<close> and so passes every \<^verbatim>\<open>except\<close> clause of the script; \<^verbatim>\<open>IndexError\<close> is
  what \<^verbatim>\<open>['Stacks'][0]\<close> raises on an empty list.
\<close>

datatype exn = ClientError string | IndexError | SystemExit string

text \<open>
  How a call ends: it returns a value, it raises, or the polling loop was still running
  when the bound on its loop tests was used up (\<open>Diverge\<close>; the history is then the part
  of the endless run performed so far).
\<close>

datatype 'a outcome = Return 'a | Raise exn | Diverge

datatype event =
    Enter_validate_template string
  | Enter_provision string
  | Enter_wait_for_stack string nat
  | Enter_set_tags string string string
  | Enter_update_stack string
  | Enter_create_stack string
  | Validate_template_request string
  | Describe_stacks_request string
  | Update_stack_request string "string list" string
  | Create_stack_request string "string list" string string
  | Stack_update_request string "string list" bool "(string \<times> string) list"
  | Sleep nat

type_synonym 'a run = "event list \<Rightarrow> 'a outcome \<times> event list"

text \<open>
  The provider: the answer to each request, given the history before the request and the
  request's keyword arguments (\<open>Inl msg\<close> is a \<^verbatim>\<open>ClientError\<close> whose \<^verbatim>\<open>str\<close> is \<open>msg\<close>).
  \<^item> \<^verbatim>\<open>validate_template(TemplateBody)\<close>
  \<^item> \<^verbatim>\<open>describe_stacks(StackName)\<close>, answering with the list under \<^verbatim>\<open>'Stacks'\<close>
  \<^item> \<^verbatim>\<open>update_stack(StackName, Capabilities, TemplateBody)\<close>
  \<^item> \<^verbatim>\<open>create_stack(StackName, Capabilities, TemplateBody, OnFailure)\<close>, answering with
    the \<^verbatim>\<open>'StackId'\<close>
  \<^item> \<^verbatim>\<open>Stack(name).update(Capabilities, UsePreviousTemplate, Tags)\<close> of the resource API
\<close>

record provider =
  validate_template_result :: "event list \<Rightarrow> string \<Rightarrow> string + unit"
  describe_stacks_result :: "event list \<Rightarrow> string \<Rightarrow> string + stack list"
  update_stack_result :: "event list \<Rightarrow> string \<Rightarrow> string list \<Rightarrow> string \<Rightarrow> string + unit"
  create_stack_result ::
    "event list \<Rightarrow> string \<Rightarrow> string list \<Rightarrow> string \<Rightarrow> string \<Rightarrow> string + string"
  Stack_update_result ::
    "event list \<Rightarrow> string \<Rightarrow> string list \<Rightarrow> bool \<Rightarrow> (string \<times> string) list \<Rightarrow> string + unit"

text \<open>
  The module's globals that the functions read: \<^verbatim>\<open>DEBUG\<close> (line 32) and the three
  environment variables of lines 43 to 45. The template is passed as an argument, as in
  the script.
\<close>

record globals =
  DEBUG :: bool
  STACK_NAME :: string
  BILLING_ENV :: string
  TEAM :: string

text \<open>The globals as the module sets them: \<^verbatim>\<open>DEBUG = True\<close>, the rest from the environment.\<close>

definition module_globals :: "string \<Rightarrow> string \<Rightarrow> string \<Rightarrow> globals" where
  "module_globals stack_name billing_env team =
     \<lparr>DEBUG = True, STACK_NAME = stack_name, BILLING_ENV = billing_env, TEAM = team\<rparr>"

subsection \<open>Sequencing, exceptions, strings\<close>

definition returnM :: "'a \<Rightarrow> 'a run" where
  "returnM x tr = (Return x, tr)"

definition raiseM :: "exn \<Rightarrow> 'a run" where
  "raiseM e tr = (Raise e, tr)"

definition emit :: "event \<Rightarrow> unit run" where
  "emit e tr = (Return (), tr @ [e])"

definition bindM :: "'a run \<Rightarrow> ('a \<Rightarrow> 'b run) \<Rightarrow> 'b run" where
  "bindM m f tr =
     (case m tr of
        (Return x, tr') \<Rightarrow> f x tr'
      | (Raise e, tr') \<Rightarrow> (Raise e, tr')
      | (Diverge, tr') \<Rightarrow> (Diverge, tr'))"

text \<open>\<^verbatim>\<open>try: m except botocore.exceptions.ClientError as err: h\<close>\<close>

definition try_except_ClientError :: "'a run \<Rightarrow> (string \<Rightarrow> 'a run) \<Rightarrow> 'a run" where
  "try_except_ClientError m h tr =
     (case m tr of
        (Raise (ClientError err), tr') \<Rightarrow> h err tr'
      | (r, tr') \<Rightarrow> (r, tr'))"

text \<open>\<^verbatim>\<open>sys.exit(err)\<close> with the caught error: \<^verbatim>\<open>SystemExit\<close> carrying \<^verbatim>\<open>str(err)\<close>.\<close>

definition sys_exit :: "string \<Rightarrow> 'a run" where
  "sys_exit err = raiseM (SystemExit err)"

text \<open>\<^verbatim>\<open>s.endswith(suf)\<close> and \<^verbatim>\<open>a in b\<close> on strings.\<close>

definition endswith :: "string \<Rightarrow> string \<Rightarrow> bool" where
  "endswith s suf = suffix suf s"

definition str_in :: "string \<Rightarrow> string \<Rightarrow> bool" where
  "str_in a b = sublist a b"

text \<open>
  What the interpreter does with the outcome of the main program: status 0 after a normal
  end; \<^verbatim>\<open>SystemExit\<close> with an argument that is neither an integer nor \<^verbatim>\<open>None\<close> prints the
  argument on standard error and gives status 1; an uncaught exception gives status 1. A
  run that never ends has no status.
\<close>

fun exit_status :: "'a outcome \<Rightarrow> nat option" where
  "exit_status (Return x) = Some 0"
| "exit_status (Raise e) = Some 1"
| "exit_status Diverge = None"

fun exit_message :: "'a outcome \<Rightarrow> string option" where
  "exit_message (Raise (SystemExit err)) = Some err"
| "exit_message r = None"

subsection \<open>The SDK calls\<close>

definition conn_validate_template :: "provider \<Rightarrow> string \<Rightarrow> unit run" where
  "conn_validate_template P template tr =
     (case validate_template_result P tr template of
        Inl err \<Rightarrow> (Raise (ClientError err), tr @ [Validate_template_request template])
      | Inr u \<Rightarrow> (Return (), tr @ [Validate_template_request template]))"

definition conn_describe_stacks :: "provider \<Rightarrow> string \<Rightarrow> stack list run" where
  "conn_describe_stacks P stack_name tr =
     (case describe_stacks_result P tr stack_name of
        Inl err \<Rightarrow> (Raise (ClientError err), tr @ [Describe_stacks_request stack_name])
      | Inr stacks \<Rightarrow> (Return stacks, tr @ [Describe_stacks_request stack_name]))"

definition conn_update_stack :: "provider \<Rightarrow> string \<Rightarrow> string list \<Rightarrow> string \<Rightarrow> unit run" where
  "conn_update_stack P stack_name caps template tr =
     (case update_stack_result P tr stack_name caps template of
        Inl err \<Rightarrow> (Raise (ClientError err), tr @ [Update_stack_request stack_name caps template])
      | Inr u \<Rightarrow> (Return (), tr @ [Update_stack_request stack_name caps template]))"

definition conn_create_stack ::
  "provider \<Rightarrow> string \<Rightarrow> string list \<Rightarrow> string \<Rightarrow> string \<Rightarrow> string run" where
  "conn_create_stack P stack_name caps template on_failure tr =
     (case create_stack_result P tr stack_name caps template on_failure of
        Inl err \<Rightarrow>
          (Raise (ClientError err), tr @ [Create_stack_request stack_name caps template on_failure])
      | Inr stack_id \<Rightarrow>
          (Return stack_id, tr @ [Create_stack_request stack_name caps template on_failure]))"

definition conn_Stack_update ::
  "provider \<Rightarrow> string \<Rightarrow> string list \<Rightarrow> bool \<Rightarrow> (string \<times> string) list \<Rightarrow> unit run" where
  "conn_Stack_update P stack_name caps use_previous tags tr =
     (case Stack_update_result P tr stack_name caps use_previous tags of
        Inl err \<Rightarrow>
          (Raise (ClientError err), tr @ [Stack_update_request stack_name caps use_previous tags])
      | Inr u \<Rightarrow> (Return (), tr @ [Stack_update_request stack_name caps use_previous tags]))"

text \<open>\<^verbatim>\<open>conn.describe_stacks(StackName=stack_name)['Stacks'][0]['StackStatus']\<close>\<close>

definition stack_status :: "provider \<Rightarrow> string \<Rightarrow> string run" where
  "stack_status P stack_name =
     bindM (conn_describe_stacks P stack_name)
       (\<lambda>stacks. case stacks of [] \<Rightarrow> raiseM IndexError | s # rest \<Rightarrow> returnM (StackStatus s))"

subsection \<open>The functions of the script\<close>

text \<open>\<^verbatim>\<open>validate_template\<close>, lines 95 to 110.\<close>

definition validate_template :: "provider \<Rightarrow> string \<Rightarrow> bool run" where
  "validate_template P template =
     bindM (emit (Enter_validate_template template)) (\<lambda>u.
       try_except_ClientError
         (bindM (conn_validate_template P template) (\<lambda>u. returnM True))
         (\<lambda>err. sys_exit err))"

text \<open>\<^verbatim>\<open>wait_list\<close>, lines 153 to 162.\<close>

definition wait_list :: "string list" where
  "wait_list =
     [''CREATE_IN_PROGRESS'',
      ''DELETE_COMPLETE_CLEANUP_IN_PROGRESS'',
      ''DELETE_IN_PROGRESS'',
      ''UPDATE_IN_PROGRESS'',
      ''UPDATE_COMPLETE_CLEANUP_IN_PROGRESS'',
      ''UPDATE_ROLLBACK_COMPLETE_CLEANUP_IN_PROGRESS'',
      ''ROLLBACK_COMPLETE'',
      ''ROLLBACK_IN_PROGRESS'']"

text \<open>
  The \<^verbatim>\<open>while\<close> loop of lines 163 to 167. The first argument bounds the number of loop
  tests: the source has no bound, so a property of the script is one that holds for every
  bound, and the loop ends when it ends for some bound. Each test is a status query; in
  the body, under \<^verbatim>\<open>DEBUG\<close>, the status is queried a second time for the message, then the
  run sleeps.
\<close>

fun wait_loop :: "nat \<Rightarrow> provider \<Rightarrow> globals \<Rightarrow> string \<Rightarrow> nat \<Rightarrow> unit run" where
  "wait_loop 0 P g stack_name wait_time tr = (Diverge, tr)"
| "wait_loop (Suc fuel) P g stack_name wait_time tr =
     (case stack_status P stack_name tr of
        (Return status, tr1) \<Rightarrow>
          if status \<in> set wait_list then
            (if DEBUG g then
               (case stack_status P stack_name tr1 of
                  (Return reason, tr2) \<Rightarrow>
                    wait_loop fuel P g stack_name wait_time (tr2 @ [Sleep wait_time])
                | (Raise e, tr2) \<Rightarrow> (Raise e, tr2)
                | (Diverge, tr2) \<Rightarrow> (Diverge, tr2))
             else wait_loop fuel P g stack_name wait_time (tr1 @ [Sleep wait_time]))
          else (Return (), tr1)
      | (Raise e, tr1) \<Rightarrow> (Raise e, tr1)
      | (Diverge, tr1) \<Rightarrow> (Diverge, tr1))"

text \<open>\<^verbatim>\<open>wait_for_stack\<close>, lines 145 to 169.\<close>

definition wait_for_stack :: "nat \<Rightarrow> provider \<Rightarrow> globals \<Rightarrow> string \<Rightarrow> nat \<Rightarrow> bool run" where
  "wait_for_stack fuel P g stack_name wait_time =
     bindM (emit (Enter_wait_for_stack stack_name wait_time)) (\<lambda>u.
     bindM (wait_loop fuel P g stack_name wait_time) (\<lambda>u.
       returnM True))"

text \<open>\<^verbatim>\<open>set_tags\<close>, lines 172 to 203: the body of the \<^verbatim>\<open>try\<close>, then the function.\<close>

definition set_tags_try :: "nat \<Rightarrow> provider \<Rightarrow> globals \<Rightarrow> string \<Rightarrow> string \<Rightarrow> string \<Rightarrow> bool run" where
  "set_tags_try fuel P g stack_name tag_value team =
     bindM (wait_for_stack fuel P g stack_name 10) (\<lambda>w.
     bindM (conn_Stack_update P stack_name [''CAPABILITY_IAM''] True
              [(''Billing_Env'', tag_value), (''Team'', team), (''Project'', stack_name)]) (\<lambda>u.
     bindM (wait_for_stack fuel P g stack_name 10) (\<lambda>w.
       returnM True)))"

definition set_tags :: "nat \<Rightarrow> provider \<Rightarrow> globals \<Rightarrow> string \<Rightarrow> string \<Rightarrow> string \<Rightarrow> bool run" where
  "set_tags fuel P g stack_name tag_value team =
     bindM (emit (Enter_set_tags stack_name tag_value team)) (\<lambda>u.
       try_except_ClientError
         (set_tags_try fuel P g stack_name tag_value team)
         (\<lambda>err. if endswith err ''to be performed.'' then returnM False else sys_exit err))"

text \<open>\<^verbatim>\<open>update_stack\<close>, lines 206 to 233.\<close>

definition update_stack :: "nat \<Rightarrow> provider \<Rightarrow> globals \<Rightarrow> string \<Rightarrow> bool run" where
  "update_stack fuel P g template =
     bindM (emit (Enter_update_stack template)) (\<lambda>u.
       try_except_ClientError
         (bindM (wait_for_stack fuel P g (STACK_NAME g) 10) (\<lambda>w.
          bindM (conn_update_stack P (STACK_NAME g) [''CAPABILITY_IAM''] template) (\<lambda>u.
          bindM (wait_for_stack fuel P g (STACK_NAME g) 10) (\<lambda>w.
          bindM (set_tags fuel P g (STACK_NAME g) (BILLING_ENV g) (TEAM g)) (\<lambda>t.
            returnM True)))))
         (\<lambda>err.
            bindM (set_tags fuel P g (STACK_NAME g) (BILLING_ENV g) (TEAM g)) (\<lambda>t.
              returnM True)))"

text \<open>
  \<^verbatim>\<open>create_stack\<close>, lines 236 to 261. Under \<^verbatim>\<open>DEBUG\<close> the answer's \<^verbatim>\<open>'StackId'\<close> is read
  for a message whose format string has no placeholder.
\<close>

definition create_stack :: "nat \<Rightarrow> provider \<Rightarrow> globals \<Rightarrow> string \<Rightarrow> bool run" where
  "create_stack fuel P g template =
     bindM (emit (Enter_create_stack template)) (\<lambda>u.
       try_except_ClientError
         (bindM (conn_create_stack P (STACK_NAME g) [''CAPABILITY_IAM''] template ''DO_NOTHING'')
            (\<lambda>build.
          bindM (wait_for_stack fuel P g (STACK_NAME g) 60) (\<lambda>w.
          bindM (set_tags fuel P g (STACK_NAME g) (BILLING_ENV g) (TEAM g)) (\<lambda>t.
            returnM True))))
         (\<lambda>err. sys_exit err))"

text \<open>The \<^verbatim>\<open>for\<close> loop of lines 131 to 133 over the stacks of the answer.\<close>

fun for_stacks :: "nat \<Rightarrow> provider \<Rightarrow> globals \<Rightarrow> string \<Rightarrow> stack list \<Rightarrow> unit run" where
  "for_stacks fuel P g template [] = returnM ()"
| "for_stacks fuel P g template (s # rest) =
     bindM (if str_in (STACK_NAME g) (StackName s)
            then bindM (update_stack fuel P g template) (\<lambda>b. returnM ())
            else returnM ())
       (\<lambda>u. for_stacks fuel P g template rest)"

text \<open>\<^verbatim>\<open>provision\<close>, lines 113 to 142.\<close>

definition provision :: "nat \<Rightarrow> provider \<Rightarrow> globals \<Rightarrow> string \<Rightarrow> bool run" where
  "provision fuel P g template =
     bindM (emit (Enter_provision template)) (\<lambda>u.
       try_except_ClientError
         (bindM (validate_template P template) (\<lambda>validated.
          bindM (if validated
                 then bindM (conn_describe_stacks P (STACK_NAME g)) (\<lambda>check.
                        for_stacks fuel P g template check)
                 else returnM ()) (\<lambda>u.
            returnM False)))
         (\<lambda>err.
            if endswith err ''does not exist''
            then bindM (create_stack fuel P g template) (\<lambda>b. returnM True)
            else sys_exit err))"

subsection \<open>Scripted providers and what is counted in a history\<close>

fun is_status_query :: "event \<Rightarrow> bool" where
  "is_status_query (Describe_stacks_request stack_name) = True"
| "is_status_query e = False"

fun is_sleep :: "event \<Rightarrow> bool" where
  "is_sleep (Sleep wait_time) = True"
| "is_sleep e = False"

definition status_queries :: "event list \<Rightarrow> nat" where
  "status_queries tr = length (filter is_status_query tr)"

definition sleeps :: "event list \<Rightarrow> nat" where
  "sleeps tr = length (filter is_sleep tr)"

text \<open>
  A provider with a scripted status sequence: the \<open>i\<close>-th status query of the run (counting
  from 0) is answered with the one stack of the requested name in status \<open>sts i\<close>. The other
  operations answer as \<open>P\<close> does.
\<close>

definition scripted :: "(nat \<Rightarrow> string) \<Rightarrow> provider \<Rightarrow> provider" where
  "scripted sts P =
     P\<lparr>describe_stacks_result :=
         (\<lambda>h stack_name. Inr [\<lparr>StackName = stack_name, StackStatus = sts (status_queries h)\<rparr>])\<rparr>"

text \<open>The sequence that runs through the list \<open>xs\<close> and then stays at \<open>final\<close>.\<close>

definition statuses_then :: "string list \<Rightarrow> string \<Rightarrow> nat \<Rightarrow> string" where
  "statuses_then xs final i = (if i < length xs then xs ! i else final)"

text \<open>A provider that accepts every request and reports every stack as created.\<close>

definition accepting_provider :: provider where
  "accepting_provider =
     \<lparr>validate_template_result = (\<lambda>h template. Inr ()),
      describe_stacks_result =
        (\<lambda>h stack_name. Inr [\<lparr>StackName = stack_name, StackStatus = ''CREATE_COMPLETE''\<rparr>]),
      update_stack_result = (\<lambda>h stack_name caps template. Inr ()),
      create_stack_result = (\<lambda>h stack_name caps template on_failure. Inr ''stack-id''),
      Stack_update_result = (\<lambda>h stack_name caps use_previous tags. Inr ())\<rparr>"

text \<open>
  What one round of the polling loop adds to the history: the loop test's query, under
  \<^verbatim>\<open>DEBUG\<close> the second query, and the sleep.
\<close>

definition loop_round :: "globals \<Rightarrow> string \<Rightarrow> nat \<Rightarrow> event list" where
  "loop_round g stack_name wait_time =
     (if DEBUG g
      then [Describe_stacks_request stack_name, Describe_stacks_request stack_name, Sleep wait_time]
      else [Describe_stacks_request stack_name, Sleep wait_time])"

text \<open>How many status queries one round takes: the distance between two loop tests.\<close>

definition queries_per_round :: "globals \<Rightarrow> nat" where
  "queries_per_round g = (if DEBUG g then 2 else 1)"

subsection \<open>Entries of the create and update paths, and the requests that change a stack\<close>

fun enters_create :: "event \<Rightarrow> bool" where
  "enters_create (Enter_create_stack t) = True"
| "enters_create e = False"

fun enters_update :: "event \<Rightarrow> bool" where
  "enters_update (Enter_update_stack t) = True"
| "enters_update e = False"

definition create_entries :: "event list \<Rightarrow> nat" where
  "create_entries tr = length (filter enters_create tr)"

definition update_entries :: "event list \<Rightarrow> nat" where
  "update_entries tr = length (filter enters_update tr)"

definition no_mutator_entry :: "event \<Rightarrow> bool" where
  "no_mutator_entry e = (\<not> enters_create e \<and> \<not> enters_update e)"

fun is_create_request :: "event \<Rightarrow> bool" where
  "is_create_request (Create_stack_request n caps t f) = True"
| "is_create_request e = False"

fun is_mutation_request :: "event \<Rightarrow> bool" where
  "is_mutation_request (Create_stack_request n caps t f) = True"
| "is_mutation_request (Update_stack_request n caps t) = True"
| "is_mutation_request (Stack_update_request n caps u tags) = True"
| "is_mutation_request e = False"

text \<open>
  The history of a run of \<^verbatim>\<open>provision\<close> at the moment it sends the existence probe of
  line 128: the template has been validated and nothing else has happened.
\<close>

definition probe_history :: "string \<Rightarrow> event list" where
  "probe_history template =
     [Enter_provision template, Enter_validate_template template,
      Validate_template_request template]"

subsection \<open>Properties of runs used in the proofs\<close>

text \<open>A run only appends to the history, and what it appends satisfies \<open>p\<close>.\<close>

definition appends_only :: "(event \<Rightarrow> bool) \<Rightarrow> 'a run \<Rightarrow> bool" where
  "appends_only p m = (\<forall>tr. \<exists>ext. snd (m tr) = tr @ ext \<and> list_all p ext)"

text \<open>A run never ends in a \<^verbatim>\<open>ClientError\<close>.\<close>

definition no_ClientError :: "'a run \<Rightarrow> bool" where
  "no_ClientError m = (\<forall>tr err. fst (m tr) \<noteq> Raise (ClientError err))"

subsection \<open>Concrete providers\<close>

text \<open>
  An account in which the stack does not exist until it is created: before the first
  create request the status query fails with the provider's not-found message.
\<close>

definition fresh_account :: provider where
  "fresh_account =
     accepting_provider\<lparr>describe_stacks_result :=
       (\<lambda>h stack_name.
          if list_ex is_create_request h
          then Inr [\<lparr>StackName = stack_name, StackStatus = ''CREATE_COMPLETE''\<rparr>]
          else Inl (''Stack with id '' @ stack_name @ '' does not exist''))\<rparr>"

text \<open>
  A provider that rejects every template, one that refuses every status query, and one
  that answers the update request and the tag request with the given errors.
\<close>

definition rejecting_provider :: "string \<Rightarrow> provider" where
  "rejecting_provider err =
     accepting_provider\<lparr>validate_template_result := (\<lambda>h template. Inl err)\<rparr>"

definition denying_provider :: "string \<Rightarrow> provider" where
  "denying_provider err =
     accepting_provider\<lparr>describe_stacks_result := (\<lambda>h stack_name. Inl err)\<rparr>"

definition failing_updates :: "string \<Rightarrow> string \<Rightarrow> provider" where
  "failing_updates update_err tags_err =
     accepting_provider\<lparr>
       update_stack_result := (\<lambda>h stack_name caps template. Inl update_err),
       Stack_update_result := (\<lambda>h stack_name caps use_previous tags. Inl tags_err)\<rparr>"

subsection \<open>The requests of the create path and of the tag update\<close>

text \<open>The request of lines 247 to 252, with the module's stack name.\<close>

definition create_request :: "globals \<Rightarrow> string \<Rightarrow> event" where
  "create_request g template =
     Create_stack_request (STACK_NAME g) [''CAPABILITY_IAM''] template ''DO_NOTHING''"

text \<open>
  The request of lines 186 to 194, and the provider's answer to it at a given history.
\<close>

definition tag_request :: "string \<Rightarrow> string \<Rightarrow> string \<Rightarrow> event" where
  "tag_request stack_name tag_value team =
     Stack_update_request stack_name [''CAPABILITY_IAM''] True
       [(''Billing_Env'', tag_value), (''Team'', team), (''Project'', stack_name)]"

definition tag_answer :: "provider \<Rightarrow> event list \<Rightarrow> string \<Rightarrow> string \<Rightarrow> string \<Rightarrow> string + unit" where
  "tag_answer P h stack_name tag_value team =
     Stack_update_result P h stack_name [''CAPABILITY_IAM''] True
       [(''Billing_Env'', tag_value), (''Team'', team), (''Project'', stack_name)]"

text \<open>An entry of the waiter satisfies \<open>waits_10\<close> when its poll interval is 10 seconds.\<close>

fun waits_10 :: "event \<Rightarrow> bool" where
  "waits_10 (Enter_wait_for_stack n w) = (w = 10)"
| "waits_10 e = True"

section \<open>Lemmas\<close>

subsection \<open>Unfolding rules\<close>

lemmas run_defs = returnM_def raiseM_def emit_def bindM_def try_except_ClientError_def sys_exit_def

lemmas conn_defs = conn_validate_template_def conn_describe_stacks_def conn_update_stack_def
  conn_create_stack_def conn_Stack_update_def

lemmas script_defs = run_defs conn_defs stack_status_def validate_template_def wait_for_stack_def
  set_tags_try_def set_tags_def update_stack_def create_stack_def provision_def

lemmas provider_defs = accepting_provider_def fresh_account_def rejecting_provider_def
  denying_provider_def module_globals_def probe_history_def endswith_def str_in_def
  suffix_to_prefix wait_list_def

lemmas more_provider_defs = provider_defs failing_updates_def tag_answer_def tag_request_def

subsection \<open>Sequencing\<close>

lemma snd_bindM_returnM: "snd (bindM m (\<lambda>x. returnM (c x)) tr) = snd (m tr)"
  by (simp add: run_defs split: prod.splits outcome.splits)

lemma fst_bindM_returnM:
  "fst (bindM m (\<lambda>x. returnM c) tr) =
     (case fst (m tr) of Return x \<Rightarrow> Return c | Raise e \<Rightarrow> Raise e | Diverge \<Rightarrow> Diverge)"
  by (simp add: run_defs split: prod.splits outcome.splits)

subsection \<open>Counting events\<close>

lemma status_queries_append: "status_queries (xs @ ys) = status_queries xs + status_queries ys"
  by (simp add: status_queries_def)

lemma status_queries_round: "status_queries (loop_round g n t) = queries_per_round g"
  by (simp add: status_queries_def loop_round_def queries_per_round_def)

lemma status_queries_rounds:
  "status_queries (concat (replicate k (loop_round g n t))) = queries_per_round g * k"
  by (induction k) (simp_all add: status_queries_def loop_round_def queries_per_round_def)

lemma sleeps_rounds: "sleeps (concat (replicate k (loop_round g n t))) = k"
  by (induction k) (simp_all add: sleeps_def loop_round_def)

lemma counts_of_returning_wait:
  "status_queries (Enter_wait_for_stack n t # concat (replicate k (loop_round g n t)) @
      [Describe_stacks_request n]) = queries_per_round g * k + 1"
  "sleeps (Enter_wait_for_stack n t # concat (replicate k (loop_round g n t)) @
      [Describe_stacks_request n]) = k"
  using status_queries_rounds [of k g n t] sleeps_rounds [of k g n t]
  by (simp_all add: status_queries_def sleeps_def)

lemma counts_of_diverging_wait:
  "sleeps (Enter_wait_for_stack n t # concat (replicate k (loop_round g n t))) = k"
  using sleeps_rounds [of k g n t] by (simp add: sleeps_def)

lemma entries_probe_history:
  "create_entries (probe_history t @ [Describe_stacks_request n]) = 0"
  "update_entries (probe_history t @ [Describe_stacks_request n]) = 0"
  by (simp_all add: create_entries_def update_entries_def probe_history_def)

lemma no_entries:
  "list_all no_mutator_entry ext \<Longrightarrow> filter enters_create ext = [] \<and> filter enters_update ext = []"
  by (induction ext) (auto simp: no_mutator_entry_def)

subsection \<open>The waiter on a scripted status sequence\<close>

text \<open>
  On a scripted provider every status query returns the next status of the script, so the
  loop is decided by the statuses at the positions of its loop tests.
\<close>

lemma stack_status_scripted:
  "stack_status (scripted sts P) n tr =
     (Return (sts (status_queries tr)), tr @ [Describe_stacks_request n])"
  by (simp add: stack_status_def bindM_def conn_describe_stacks_def scripted_def returnM_def)

lemma wait_loop_round:
  assumes "sts (status_queries tr) \<in> set wait_list"
  shows "wait_loop (Suc fuel) (scripted sts P) g n t tr =
           wait_loop fuel (scripted sts P) g n t (tr @ loop_round g n t)"
  using assms by (simp add: stack_status_scripted loop_round_def)

lemma wait_loop_stop:
  assumes "sts (status_queries tr) \<notin> set wait_list"
  shows "wait_loop (Suc fuel) (scripted sts P) g n t tr =
           (Return (), tr @ [Describe_stacks_request n])"
  using assms by (simp add: stack_status_scripted)

lemma wait_loop_returns:
  assumes "\<forall>i<k. sts (status_queries tr + queries_per_round g * i) \<in> set wait_list"
    and "sts (status_queries tr + queries_per_round g * k) \<notin> set wait_list"
    and "k < fuel"
  shows "wait_loop fuel (scripted sts P) g n t tr =
           (Return (), tr @ concat (replicate k (loop_round g n t)) @ [Describe_stacks_request n])"
  using assms
proof (induction k arbitrary: fuel tr)
  case 0
  then obtain f where f: "fuel = Suc f" by (cases fuel) auto
  from 0 have "sts (status_queries tr) \<notin> set wait_list" by simp
  then show ?case unfolding f by (simp add: wait_loop_stop del: wait_loop.simps)
next
  case (Suc k)
  then obtain f where f: "fuel = Suc f" by (cases fuel) auto
  have first: "sts (status_queries tr) \<in> set wait_list"
    using Suc.prems(1) by (metis add.right_neutral mult_0_right zero_less_Suc)
  let ?tr = "tr @ loop_round g n t"
  have q: "status_queries ?tr = status_queries tr + queries_per_round g"
    by (simp add: status_queries_append status_queries_round)
  have a: "\<forall>i<k. sts (status_queries ?tr + queries_per_round g * i) \<in> set wait_list"
  proof (intro allI impI)
    fix i assume "i < k"
    then have "Suc i < Suc k" by simp
    then have "sts (status_queries tr + queries_per_round g * Suc i) \<in> set wait_list"
      using Suc.prems(1) by blast
    then show "sts (status_queries ?tr + queries_per_round g * i) \<in> set wait_list"
      by (simp add: q add.assoc)
  qed
  have b: "sts (status_queries ?tr + queries_per_round g * k) \<notin> set wait_list"
    using Suc.prems(2) by (simp add: q add.assoc)
  have c: "k < f" using Suc.prems(3) f by simp
  show ?case
    unfolding f
    by (simp add: wait_loop_round [of sts tr, OF first] Suc.IH [OF a b c] del: wait_loop.simps)
qed

lemma wait_loop_diverges:
  assumes "\<forall>i<fuel. sts (status_queries tr + queries_per_round g * i) \<in> set wait_list"
  shows "wait_loop fuel (scripted sts P) g n t tr =
           (Diverge, tr @ concat (replicate fuel (loop_round g n t)))"
  using assms
proof (induction fuel arbitrary: tr)
  case 0
  show ?case by simp
next
  case (Suc fuel)
  have first: "sts (status_queries tr) \<in> set wait_list"
    using Suc.prems by (metis add.right_neutral mult_0_right zero_less_Suc)
  let ?tr = "tr @ loop_round g n t"
  have q: "status_queries ?tr = status_queries tr + queries_per_round g"
    by (simp add: status_queries_append status_queries_round)
  have a: "\<forall>i<fuel. sts (status_queries ?tr + queries_per_round g * i) \<in> set wait_list"
  proof (intro allI impI)
    fix i assume "i < fuel"
    then have "Suc i < Suc fuel" by simp
    then have "sts (status_queries tr + queries_per_round g * Suc i) \<in> set wait_list"
      using Suc.prems by blast
    then show "sts (status_queries ?tr + queries_per_round g * i) \<in> set wait_list"
      by (simp add: q add.assoc)
  qed
  show ?case
    by (simp add: wait_loop_round [of sts tr, OF first] Suc.IH [OF a] del: wait_loop.simps)
qed

lemma wait_for_stack_returns:
  assumes "\<forall>i<k. sts (status_queries tr + queries_per_round g * i) \<in> set wait_list"
    and "sts (status_queries tr + queries_per_round g * k) \<notin> set wait_list"
    and "k < fuel"
  shows "wait_for_stack fuel (scripted sts P) g n t tr =
           (Return True,
            tr @ Enter_wait_for_stack n t # concat (replicate k (loop_round g n t)) @
              [Describe_stacks_request n])"
proof -
  have q: "status_queries (tr @ [Enter_wait_for_stack n t]) = status_queries tr"
    by (simp add: status_queries_def)
  have "wait_loop fuel (scripted sts P) g n t (tr @ [Enter_wait_for_stack n t]) =
      (Return (), (tr @ [Enter_wait_for_stack n t]) @ concat (replicate k (loop_round g n t)) @
        [Describe_stacks_request n])"
    by (rule wait_loop_returns) (use assms in \<open>simp_all add: q\<close>)
  then show ?thesis by (simp add: wait_for_stack_def run_defs)
qed

lemma wait_for_stack_diverges:
  assumes "\<forall>i<fuel. sts (status_queries tr + queries_per_round g * i) \<in> set wait_list"
  shows "wait_for_stack fuel (scripted sts P) g n t tr =
           (Diverge, tr @ Enter_wait_for_stack n t # concat (replicate fuel (loop_round g n t)))"
proof -
  have q: "status_queries (tr @ [Enter_wait_for_stack n t]) = status_queries tr"
    by (simp add: status_queries_def)
  have "wait_loop fuel (scripted sts P) g n t (tr @ [Enter_wait_for_stack n t]) =
      (Diverge, (tr @ [Enter_wait_for_stack n t]) @ concat (replicate fuel (loop_round g n t)))"
    by (rule wait_loop_diverges) (use assms in \<open>simp add: q\<close>)
  then show ?thesis by (simp add: wait_for_stack_def run_defs)
qed

lemma queries_per_round_pos: "0 < queries_per_round g"
  by (simp add: queries_per_round_def)

lemma wait_for_stack_returns_if_some_test_outside:
  assumes out: "sts (status_queries tr + queries_per_round g * k) \<notin> set wait_list"
    and fuel: "k < fuel"
  shows "fst (wait_for_stack fuel (scripted sts P) g n t tr) = Return True"
proof -
  define k0 where "k0 = (LEAST j. sts (status_queries tr + queries_per_round g * j) \<notin> set wait_list)"
  have first: "sts (status_queries tr + queries_per_round g * k0) \<notin> set wait_list"
    unfolding k0_def using out by (rule LeastI)
  have le: "k0 \<le> k"
    unfolding k0_def using out by (rule Least_le)
  have before: "\<forall>i<k0. sts (status_queries tr + queries_per_round g * i) \<in> set wait_list"
    unfolding k0_def using not_less_Least by blast
  from le fuel have "k0 < fuel" by simp
  with before first
  have "wait_for_stack fuel (scripted sts P) g n t tr =
      (Return True,
       tr @ Enter_wait_for_stack n t # concat (replicate k0 (loop_round g n t)) @
         [Describe_stacks_request n])"
    by (rule wait_for_stack_returns)
  then show ?thesis by simp
qed

lemma wait_loop_scripted_no_raise:
  "fst (wait_loop fuel (scripted sts P) g n t tr) \<noteq> Raise e"
  by (induction fuel arbitrary: tr) (simp_all add: stack_status_scripted)

lemma wait_for_stack_scripted_no_raise:
  "wait_for_stack fuel (scripted sts P) g n t tr \<noteq> (Raise e, tr')"
proof
  assume a: "wait_for_stack fuel (scripted sts P) g n t tr = (Raise e, tr')"
  obtain r tr1 where w: "wait_loop fuel (scripted sts P) g n t (tr @ [Enter_wait_for_stack n t]) = (r, tr1)"
    by (cases "wait_loop fuel (scripted sts P) g n t (tr @ [Enter_wait_for_stack n t])")
  from wait_loop_scripted_no_raise [of fuel sts P g n t "tr @ [Enter_wait_for_stack n t]" e] w
  have "r \<noteq> Raise e" by simp
  with a w show False
    by (cases r) (simp_all add: wait_for_stack_def run_defs)
qed

lemma settled_outside_wait_list:
  "''CREATE_COMPLETE'' \<notin> set wait_list" "''UPDATE_COMPLETE'' \<notin> set wait_list"
  "''CREATE_FAILED'' \<notin> set wait_list" "''UPDATE_ROLLBACK_COMPLETE'' \<notin> set wait_list"
  "''ROLLBACK_COMPLETE'' \<in> set wait_list"
  by (simp_all add: wait_list_def)

lemma statuses_then_Nil: "statuses_then [] st i = st"
  by (simp add: statuses_then_def)

lemma statuses_then_two_even: "statuses_then [a, b] a (2 * i) = a"
  by (cases i) (simp_all add: statuses_then_def)

subsection \<open>The waiter on any provider\<close>

text \<open>
  Whatever the provider answers, the waiter adds its entry, status queries and sleeps to
  the history, and the only value it returns is true.
\<close>

lemma stack_status_history:
  "snd (stack_status P n tr) = tr @ [Describe_stacks_request n]"
  by (simp add: stack_status_def run_defs conn_defs split: sum.splits list.splits)

lemma stack_status_cases:
  obtains (ret) st where "stack_status P n tr = (Return st, tr @ [Describe_stacks_request n])"
  | (err) e where "stack_status P n tr = (Raise e, tr @ [Describe_stacks_request n])"
  by (cases "stack_status P n tr"; cases "fst (stack_status P n tr)")
     (use stack_status_history [of P n tr] in auto,
      auto simp: stack_status_def run_defs conn_defs split: sum.splits list.splits)

lemma wait_loop_history:
  "\<exists>ext. snd (wait_loop fuel P g n t tr) = tr @ ext \<and>
         set ext \<subseteq> {Describe_stacks_request n, Sleep t}"
proof (induction fuel arbitrary: tr)
  case 0
  show ?case by simp
next
  case (Suc fuel)
  show ?case
  proof (cases rule: stack_status_cases [of P n tr])
    case (ret st)
    note first = this
    show ?thesis
    proof (cases "st \<in> set wait_list")
      case False
      with first show ?thesis by simp
    next
      case True
      note busy = this
      show ?thesis
      proof (cases "DEBUG g")
        case False
        from Suc.IH [of "(tr @ [Describe_stacks_request n]) @ [Sleep t]"]
        obtain ext where "snd (wait_loop fuel P g n t ((tr @ [Describe_stacks_request n]) @ [Sleep t]))
            = ((tr @ [Describe_stacks_request n]) @ [Sleep t]) @ ext"
          and "set ext \<subseteq> {Describe_stacks_request n, Sleep t}" by blast
        with first busy False show ?thesis
          by (intro exI [of _ "[Describe_stacks_request n, Sleep t] @ ext"]) simp
      next
        case True
        note dbg = this
        show ?thesis
        proof (cases rule: stack_status_cases [of P n "tr @ [Describe_stacks_request n]"])
          case (ret reason)
          from Suc.IH [of "((tr @ [Describe_stacks_request n]) @ [Describe_stacks_request n]) @ [Sleep t]"]
          obtain ext where "snd (wait_loop fuel P g n t
              (((tr @ [Describe_stacks_request n]) @ [Describe_stacks_request n]) @ [Sleep t]))
            = (((tr @ [Describe_stacks_request n]) @ [Describe_stacks_request n]) @ [Sleep t]) @ ext"
            and "set ext \<subseteq> {Describe_stacks_request n, Sleep t}" by blast
          with first busy dbg ret show ?thesis
            by (intro exI [of _ "[Describe_stacks_request n, Describe_stacks_request n, Sleep t] @ ext"])
               simp
        next
          case (err e)
          with first busy dbg show ?thesis
            by (intro exI [of _ "[Describe_stacks_request n, Describe_stacks_request n]"]) simp
        qed
      qed
    qed
  next
    case (err e)
    then show ?thesis by simp
  qed
qed

lemma wait_for_stack_history:
  "\<exists>ext. snd (wait_for_stack fuel P g n t tr) = tr @ Enter_wait_for_stack n t # ext \<and>
         set ext \<subseteq> {Describe_stacks_request n, Sleep t}"
proof -
  obtain ext where e: "snd (wait_loop fuel P g n t (tr @ [Enter_wait_for_stack n t]))
      = (tr @ [Enter_wait_for_stack n t]) @ ext"
    and s: "set ext \<subseteq> {Describe_stacks_request n, Sleep t}"
    using wait_loop_history by blast
  show ?thesis
    using e s
    by (intro exI [of _ ext])
       (cases "wait_loop fuel P g n t (tr @ [Enter_wait_for_stack n t])";
        cases "fst (wait_loop fuel P g n t (tr @ [Enter_wait_for_stack n t]))";
        simp add: wait_for_stack_def run_defs)
qed

lemma wait_for_stack_value:
  "fst (wait_for_stack fuel P g n t tr) = Return b \<Longrightarrow> b = True"
  by (cases "wait_loop fuel P g n t (tr @ [Enter_wait_for_stack n t])";
      cases "fst (wait_loop fuel P g n t (tr @ [Enter_wait_for_stack n t]))")
     (simp_all add: wait_for_stack_def run_defs)

lemma wait_for_stack_cases:
  obtains (ret) tr1 where "wait_for_stack fuel P g n t tr = (Return True, tr1)"
  | (exc) e tr1 where "wait_for_stack fuel P g n t tr = (Raise e, tr1)"
  | (div) tr1 where "wait_for_stack fuel P g n t tr = (Diverge, tr1)"
proof (cases "wait_for_stack fuel P g n t tr")
  case (Pair r tr1)
  show ?thesis
  proof (cases r)
    case (Return b)
    with Pair wait_for_stack_value [of fuel P g n t tr b] have "b = True" by simp
    with Pair Return ret show ?thesis by simp
  next
    case (Raise e)
    with Pair exc show ?thesis by simp
  next
    case Diverge
    with Pair div show ?thesis by simp
  qed
qed

lemma wait_for_stack_returns_history:
  assumes "wait_for_stack fuel P g n t tr = (r, tr1)"
  obtains polls where "tr1 = tr @ Enter_wait_for_stack n t # polls"
    and "set polls \<subseteq> {Describe_stacks_request n, Sleep t}"
  using wait_for_stack_history [of fuel P g n t tr] assms by auto

subsection \<open>What a run appends to the history\<close>

lemma appends_onlyD:
  assumes "appends_only p m"
  obtains ext where "snd (m tr) = tr @ ext" and "list_all p ext"
  using assms unfolding appends_only_def by blast

lemma appends_only_returnM: "appends_only p (returnM x)"
  by (simp add: appends_only_def returnM_def)

lemma appends_only_raiseM: "appends_only p (raiseM e)"
  by (simp add: appends_only_def raiseM_def)

lemma appends_only_sys_exit: "appends_only p (sys_exit e)"
  by (simp add: sys_exit_def appends_only_raiseM)

lemma appends_only_emit: "p e \<Longrightarrow> appends_only p (emit e)"
  by (simp add: appends_only_def emit_def)

lemma appends_only_bindM:
  assumes m: "appends_only p m" and f: "\<And>x. appends_only p (f x)"
  shows "appends_only p (bindM m f)"
  unfolding appends_only_def
proof
  fix tr
  obtain e1 where e1: "snd (m tr) = tr @ e1" "list_all p e1"
    using m by (rule appends_onlyD)
  show "\<exists>ext. snd (bindM m f tr) = tr @ ext \<and> list_all p ext"
  proof (cases "m tr")
    case (Pair r tr1)
    with e1 have tr1: "tr1 = tr @ e1" by simp
    show ?thesis
    proof (cases r)
      case (Return x)
      obtain e2 where e2: "snd (f x tr1) = tr1 @ e2" "list_all p e2"
        using f by (rule appends_onlyD)
      with Pair Return tr1 e1 show ?thesis
        by (intro exI [of _ "e1 @ e2"]) (simp add: bindM_def)
    next
      case (Raise e)
      with Pair tr1 e1 show ?thesis by (intro exI [of _ e1]) (simp add: bindM_def)
    next
      case Diverge
      with Pair tr1 e1 show ?thesis by (intro exI [of _ e1]) (simp add: bindM_def)
    qed
  qed
qed

lemma appends_only_try:
  assumes m: "appends_only p m" and h: "\<And>err. appends_only p (h err)"
  shows "appends_only p (try_except_ClientError m h)"
  unfolding appends_only_def
proof
  fix tr
  obtain e1 where e1: "snd (m tr) = tr @ e1" "list_all p e1"
    using m by (rule appends_onlyD)
  show "\<exists>ext. snd (try_except_ClientError m h tr) = tr @ ext \<and> list_all p ext"
  proof (cases "m tr")
    case (Pair r tr1)
    with e1 have tr1: "tr1 = tr @ e1" by simp
    show ?thesis
    proof (cases "\<exists>err. r = Raise (ClientError err)")
      case True
      then obtain err where r: "r = Raise (ClientError err)" by blast
      obtain e2 where e2: "snd (h err tr1) = tr1 @ e2" "list_all p e2"
        using h by (rule appends_onlyD)
      with Pair r tr1 e1 show ?thesis
        by (intro exI [of _ "e1 @ e2"]) (simp add: try_except_ClientError_def)
    next
      case False
      with Pair tr1 e1 show ?thesis
        by (intro exI [of _ e1])
           (auto simp: try_except_ClientError_def split: outcome.splits exn.splits)
    qed
  qed
qed

lemma appends_only_conn:
  "p (Validate_template_request t) \<Longrightarrow> appends_only p (conn_validate_template P t)"
  "p (Describe_stacks_request n) \<Longrightarrow> appends_only p (conn_describe_stacks P n)"
  "p (Update_stack_request n caps t) \<Longrightarrow> appends_only p (conn_update_stack P n caps t)"
  "p (Create_stack_request n caps t f) \<Longrightarrow> appends_only p (conn_create_stack P n caps t f)"
  "p (Stack_update_request n caps u tags) \<Longrightarrow> appends_only p (conn_Stack_update P n caps u tags)"
  by (simp_all add: appends_only_def conn_defs split: sum.splits)

lemma appends_only_wait_for_stack:
  assumes "p (Enter_wait_for_stack n t)" "p (Describe_stacks_request n)" "p (Sleep t)"
  shows "appends_only p (wait_for_stack fuel P g n t)"
  unfolding appends_only_def
proof
  fix tr
  obtain ext where "snd (wait_for_stack fuel P g n t tr) = tr @ Enter_wait_for_stack n t # ext"
    and "set ext \<subseteq> {Describe_stacks_request n, Sleep t}"
    using wait_for_stack_history by blast
  with assms show "\<exists>ext. snd (wait_for_stack fuel P g n t tr) = tr @ ext \<and> list_all p ext"
    by (intro exI [of _ "Enter_wait_for_stack n t # ext"]) (auto simp: list_all_iff)
qed

lemma appends_only_set_tags:
  "appends_only no_mutator_entry (set_tags fuel P g n b tm)"
  unfolding set_tags_def set_tags_try_def
  by (intro appends_only_bindM appends_only_try appends_only_emit appends_only_conn
        appends_only_wait_for_stack appends_only_returnM)
     (simp_all add: no_mutator_entry_def appends_only_returnM appends_only_sys_exit)

lemma appends_only_set_tags_events:
  assumes "p (Enter_set_tags n v tm)" "p (Enter_wait_for_stack n 10)"
    "p (Describe_stacks_request n)" "p (Sleep 10)" "p (tag_request n v tm)"
  shows "appends_only p (set_tags fuel P g n v tm)"
  unfolding set_tags_def set_tags_try_def
  by (intro appends_only_bindM appends_only_try appends_only_emit appends_only_conn
        appends_only_wait_for_stack appends_only_returnM)
     (use assms in \<open>simp_all add: appends_only_returnM appends_only_sys_exit tag_request_def\<close>)

subsection \<open>Which functions let a ClientError escape\<close>

text \<open>
  Every function but \<^verbatim>\<open>wait_for_stack\<close> catches the \<^verbatim>\<open>ClientError\<close>s raised inside it.
\<close>

lemma no_ClientError_returnM: "no_ClientError (returnM x)"
  by (simp add: no_ClientError_def returnM_def)

lemma no_ClientError_sys_exit: "no_ClientError (sys_exit e)"
  by (simp add: no_ClientError_def sys_exit_def raiseM_def)

lemma no_ClientError_emit: "no_ClientError (emit e)"
  by (simp add: no_ClientError_def emit_def)

lemma no_ClientError_bindM:
  assumes "no_ClientError m" and "\<And>x. no_ClientError (f x)"
  shows "no_ClientError (bindM m f)"
  using assms unfolding no_ClientError_def bindM_def
  by (auto split: prod.splits outcome.splits) (metis fst_conv)

lemma no_ClientError_try:
  assumes "\<And>err. no_ClientError (h err)"
  shows "no_ClientError (try_except_ClientError m h)"
  using assms unfolding no_ClientError_def try_except_ClientError_def
  by (auto split: prod.splits outcome.splits exn.splits)

lemma no_ClientError_if:
  assumes "no_ClientError a" and "no_ClientError b"
  shows "no_ClientError (if c then a else b)"
  using assms by simp

lemma no_ClientError_set_tags: "no_ClientError (set_tags fuel P g n b tm)"
  unfolding set_tags_def
  by (intro no_ClientError_bindM no_ClientError_emit no_ClientError_try no_ClientError_if
        no_ClientError_returnM no_ClientError_sys_exit)

lemma no_ClientError_update_stack: "no_ClientError (update_stack fuel P g t)"
  unfolding update_stack_def
  by (intro no_ClientError_bindM no_ClientError_emit no_ClientError_try no_ClientError_set_tags
        no_ClientError_returnM)

lemma no_ClientError_create_stack: "no_ClientError (create_stack fuel P g t)"
  unfolding create_stack_def
  by (intro no_ClientError_bindM no_ClientError_emit no_ClientError_try no_ClientError_sys_exit)

lemma no_ClientError_validate_template: "no_ClientError (validate_template P t)"
  unfolding validate_template_def
  by (intro no_ClientError_bindM no_ClientError_emit no_ClientError_try no_ClientError_sys_exit)

lemma no_ClientError_for_stacks: "no_ClientError (for_stacks fuel P g t ss)"
  by (induction ss)
     (auto intro!: no_ClientError_bindM no_ClientError_returnM no_ClientError_update_stack)

subsection \<open>Tag reconciliation, step by step\<close>

lemma set_tags_tag_error:
  assumes "wait_for_stack fuel P g n 10 (tr @ [Enter_set_tags n v tm]) = (Return True, tr1)"
    and "tag_answer P tr1 n v tm = Inl err"
  shows "set_tags fuel P g n v tm tr =
           (if endswith err ''to be performed.''
            then (Return False, tr1 @ [tag_request n v tm])
            else (Raise (SystemExit err), tr1 @ [tag_request n v tm]))"
  using assms
  by (simp add: set_tags_def set_tags_try_def run_defs conn_Stack_update_def tag_answer_def
        tag_request_def)

lemma set_tags_tag_accepted:
  assumes "wait_for_stack fuel P g n 10 (tr @ [Enter_set_tags n v tm]) = (Return True, tr1)"
    and "tag_answer P tr1 n v tm = Inr ()"
  shows "set_tags fuel P g n v tm tr =
           try_except_ClientError (wait_for_stack fuel P g n 10)
             (\<lambda>err. if endswith err ''to be performed.'' then returnM False else sys_exit err)
             (tr1 @ [tag_request n v tm])"
  using assms
  by (cases rule: wait_for_stack_cases [of fuel P g n 10 "tr1 @ [tag_request n v tm]"])
     (simp_all add: set_tags_def set_tags_try_def run_defs conn_Stack_update_def tag_answer_def
        tag_request_def split: exn.splits)

lemma set_tags_true_iff:
  "fst (set_tags fuel P g n v tm tr) = Return True \<longleftrightarrow>
     (\<exists>tr1. wait_for_stack fuel P g n 10 (tr @ [Enter_set_tags n v tm]) = (Return True, tr1) \<and>
            tag_answer P tr1 n v tm = Inr () \<and>
            fst (wait_for_stack fuel P g n 10 (tr1 @ [tag_request n v tm])) = Return True)"
proof (cases rule: wait_for_stack_cases [of fuel P g n 10 "tr @ [Enter_set_tags n v tm]"])
  case (ret tr1)
  show ?thesis
  proof (cases "tag_answer P tr1 n v tm")
    case (Inl err)
    with ret set_tags_tag_error [OF ret Inl] show ?thesis by simp
  next
    case (Inr u)
    then have acc: "tag_answer P tr1 n v tm = Inr ()" by simp
    show ?thesis
      by (cases rule: wait_for_stack_cases [of fuel P g n 10 "tr1 @ [tag_request n v tm]"])
         (simp_all add: ret acc set_tags_tag_accepted [OF ret acc] run_defs split: exn.splits)
  qed
next
  case (exc e tr1)
  then show ?thesis
    by (simp add: set_tags_def set_tags_try_def run_defs split: exn.splits)
next
  case (div tr1)
  then show ?thesis
    by (simp add: set_tags_def set_tags_try_def run_defs)
qed

lemma set_tags_starts:
  "\<exists>rest. snd (set_tags fuel P g n v tm tr) = tr @ Enter_set_tags n v tm # rest"
proof -
  let ?rest = "try_except_ClientError (set_tags_try fuel P g n v tm)
      (\<lambda>err. if endswith err ''to be performed.'' then returnM False else sys_exit err)"
  have "appends_only (\<lambda>e. True) ?rest"
    unfolding set_tags_try_def
    by (intro appends_only_bindM appends_only_try appends_only_conn
          appends_only_wait_for_stack appends_only_returnM)
       (simp_all add: appends_only_returnM appends_only_sys_exit)
  then obtain ext where "snd (?rest (tr @ [Enter_set_tags n v tm])) = (tr @ [Enter_set_tags n v tm]) @ ext"
    by (rule appends_onlyD)
  then show ?thesis
    by (intro exI [of _ ext]) (simp add: set_tags_def bindM_def emit_def)
qed

lemma set_tags_scripted_returns:
  assumes "fst (set_tags fuel (scripted sts P) g n v tm tr) = Return b"
  shows "\<exists>rest. snd (set_tags fuel (scripted sts P) g n v tm tr) = tr @ Enter_set_tags n v tm # rest \<and>
           tag_request n v tm \<in> set rest"
proof (cases rule: wait_for_stack_cases [of fuel "scripted sts P" g n 10 "tr @ [Enter_set_tags n v tm]"])
  case (ret tr1)
  then obtain polls where tr1: "tr1 = (tr @ [Enter_set_tags n v tm]) @ Enter_wait_for_stack n 10 # polls"
    by (rule wait_for_stack_returns_history)
  show ?thesis
  proof (cases "tag_answer (scripted sts P) tr1 n v tm")
    case (Inl err)
    from set_tags_tag_error [OF ret Inl]
    have "snd (set_tags fuel (scripted sts P) g n v tm tr) = tr1 @ [tag_request n v tm]"
      by (simp split: if_splits)
    then show ?thesis
      by (intro exI [of _ "Enter_wait_for_stack n 10 # polls @ [tag_request n v tm]"])
         (simp add: tr1)
  next
    case (Inr u)
    then have acc: "tag_answer (scripted sts P) tr1 n v tm = Inr ()" by simp
    let ?rest = "try_except_ClientError (wait_for_stack fuel (scripted sts P) g n 10)
        (\<lambda>err. if endswith err ''to be performed.'' then returnM False else sys_exit err)"
    have "appends_only (\<lambda>e. True) ?rest"
      by (intro appends_only_try appends_only_wait_for_stack)
         (simp_all add: appends_only_returnM appends_only_sys_exit)
    then obtain ext where "snd (?rest (tr1 @ [tag_request n v tm])) = (tr1 @ [tag_request n v tm]) @ ext"
      by (rule appends_onlyD)
    with set_tags_tag_accepted [OF ret acc]
    have "snd (set_tags fuel (scripted sts P) g n v tm tr) = (tr1 @ [tag_request n v tm]) @ ext"
      by simp
    then show ?thesis
      by (intro exI [of _ "Enter_wait_for_stack n 10 # polls @ [tag_request n v tm] @ ext"])
         (simp add: tr1)
  qed
next
  case (exc e tr1)
  with wait_for_stack_scripted_no_raise show ?thesis by blast
next
  case (div tr1)
  with assms show ?thesis
    by (simp add: set_tags_def set_tags_try_def run_defs)
qed

subsection \<open>The update and create paths\<close>

lemma update_stack_history:
  "\<exists>ext. snd (update_stack fuel P g t tr) = tr @ Enter_update_stack t # ext \<and>
         list_all no_mutator_entry ext"
proof -
  let ?rest = "try_except_ClientError
         (bindM (wait_for_stack fuel P g (STACK_NAME g) 10) (\<lambda>w.
          bindM (conn_update_stack P (STACK_NAME g) [''CAPABILITY_IAM''] t) (\<lambda>u.
          bindM (wait_for_stack fuel P g (STACK_NAME g) 10) (\<lambda>w.
          bindM (set_tags fuel P g (STACK_NAME g) (BILLING_ENV g) (TEAM g)) (\<lambda>t.
            returnM True)))))
         (\<lambda>err.
            bindM (set_tags fuel P g (STACK_NAME g) (BILLING_ENV g) (TEAM g)) (\<lambda>t.
              returnM True))"
  have "appends_only no_mutator_entry ?rest"
    by (intro appends_only_bindM appends_only_try appends_only_conn
          appends_only_wait_for_stack appends_only_returnM appends_only_set_tags)
       (simp_all add: no_mutator_entry_def)
  then obtain ext where "snd (?rest (tr @ [Enter_update_stack t])) = (tr @ [Enter_update_stack t]) @ ext"
    and "list_all no_mutator_entry ext"
    by (rule appends_onlyD)
  then show ?thesis
    by (intro exI [of _ ext]) (simp add: update_stack_def bindM_def emit_def)
qed

lemma create_stack_history:
  "\<exists>ext. snd (create_stack fuel P g t tr) = tr @ Enter_create_stack t # ext \<and>
         list_all no_mutator_entry ext"
proof -
  let ?rest = "try_except_ClientError
         (bindM (conn_create_stack P (STACK_NAME g) [''CAPABILITY_IAM''] t ''DO_NOTHING'')
            (\<lambda>build.
          bindM (wait_for_stack fuel P g (STACK_NAME g) 60) (\<lambda>w.
          bindM (set_tags fuel P g (STACK_NAME g) (BILLING_ENV g) (TEAM g)) (\<lambda>t.
            returnM True))))
         (\<lambda>err. sys_exit err)"
  have "appends_only no_mutator_entry ?rest"
    by (intro appends_only_bindM appends_only_try appends_only_conn
          appends_only_wait_for_stack appends_only_returnM appends_only_set_tags
          appends_only_sys_exit)
       (simp_all add: no_mutator_entry_def)
  then obtain ext where "snd (?rest (tr @ [Enter_create_stack t])) = (tr @ [Enter_create_stack t]) @ ext"
    and "list_all no_mutator_entry ext"
    by (rule appends_onlyD)
  then show ?thesis
    by (intro exI [of _ ext]) (simp add: create_stack_def bindM_def emit_def)
qed

lemma update_stack_entries:
  "create_entries (snd (update_stack fuel P g t tr)) = create_entries tr"
  "update_entries (snd (update_stack fuel P g t tr)) = Suc (update_entries tr)"
  using update_stack_history [of fuel P g t tr]
  by (auto simp: create_entries_def update_entries_def dest: no_entries)

lemma create_stack_entries:
  "create_entries (snd (create_stack fuel P g t tr)) = Suc (create_entries tr)"
  "update_entries (snd (create_stack fuel P g t tr)) = update_entries tr"
  using create_stack_history [of fuel P g t tr]
  by (auto simp: create_entries_def update_entries_def dest: no_entries)

lemma update_stack_update_error:
  assumes "wait_for_stack fuel P g (STACK_NAME g) 10 (tr @ [Enter_update_stack t]) = (Return True, tr1)"
    and "update_stack_result P tr1 (STACK_NAME g) [''CAPABILITY_IAM''] t = Inl err"
  shows "update_stack fuel P g t tr =
           bindM (set_tags fuel P g (STACK_NAME g) (BILLING_ENV g) (TEAM g)) (\<lambda>b. returnM True)
             (tr1 @ [Update_stack_request (STACK_NAME g) [''CAPABILITY_IAM''] t])"
  using assms by (simp add: update_stack_def run_defs conn_update_stack_def)

lemma update_stack_waits_10:
  "list_all waits_10 (snd (update_stack fuel P g t []))"
proof -
  have "appends_only waits_10 (update_stack fuel P g t)"
    unfolding update_stack_def
    by (intro appends_only_bindM appends_only_try appends_only_emit appends_only_conn
          appends_only_wait_for_stack appends_only_returnM appends_only_set_tags_events)
       (simp_all add: tag_request_def)
  then obtain ext where "snd (update_stack fuel P g t []) = [] @ ext" and "list_all waits_10 ext"
    by (rule appends_onlyD)
  then show ?thesis by simp
qed

lemma create_stack_rejected:
  assumes "create_stack_result P (tr @ [Enter_create_stack t]) (STACK_NAME g) [''CAPABILITY_IAM''] t
      ''DO_NOTHING'' = Inl err"
  shows "create_stack fuel P g t tr =
           (Raise (SystemExit err),
            tr @ [Enter_create_stack t,
                  Create_stack_request (STACK_NAME g) [''CAPABILITY_IAM''] t ''DO_NOTHING''])"
  using assms by (simp add: create_stack_def run_defs conn_create_stack_def)

lemma create_stack_accepted:
  assumes "create_stack_result P (tr @ [Enter_create_stack t]) (STACK_NAME g) [''CAPABILITY_IAM''] t
      ''DO_NOTHING'' = Inr sid"
  shows "create_stack fuel P g t tr =
           try_except_ClientError
             (bindM (wait_for_stack fuel P g (STACK_NAME g) 60) (\<lambda>w.
              bindM (set_tags fuel P g (STACK_NAME g) (BILLING_ENV g) (TEAM g)) (\<lambda>b.
                returnM True)))
             (\<lambda>err. sys_exit err)
             (tr @ [Enter_create_stack t,
                    Create_stack_request (STACK_NAME g) [''CAPABILITY_IAM''] t ''DO_NOTHING''])"
  using assms
  by (simp add: create_stack_def run_defs conn_create_stack_def
        split: prod.splits outcome.splits exn.splits)

lemma create_stack_accepted_run:
  assumes acc: "create_stack_result P (tr @ [Enter_create_stack t]) (STACK_NAME g)
      [''CAPABILITY_IAM''] t ''DO_NOTHING'' = Inr sid"
  shows "\<exists>polls more.
      snd (create_stack fuel P g t tr) =
        tr @ [Enter_create_stack t, create_request g t, Enter_wait_for_stack (STACK_NAME g) 60] @
          polls @ more \<and>
      set polls \<subseteq> {Describe_stacks_request (STACK_NAME g), Sleep 60} \<and>
      (\<forall>b. fst (create_stack fuel P g t tr) = Return b \<longrightarrow>
         b = True \<and>
         (\<exists>b'. fst (set_tags fuel P g (STACK_NAME g) (BILLING_ENV g) (TEAM g)
                  (tr @ [Enter_create_stack t, create_request g t,
                         Enter_wait_for_stack (STACK_NAME g) 60] @ polls)) = Return b') \<and>
         tr @ [Enter_create_stack t, create_request g t, Enter_wait_for_stack (STACK_NAME g) 60] @
           polls @ more =
         snd (set_tags fuel P g (STACK_NAME g) (BILLING_ENV g) (TEAM g)
                (tr @ [Enter_create_stack t, create_request g t,
                       Enter_wait_for_stack (STACK_NAME g) 60] @ polls)))"
proof -
  let ?tr2 = "tr @ [Enter_create_stack t, create_request g t]"
  have run: "create_stack fuel P g t tr =
      try_except_ClientError
        (bindM (wait_for_stack fuel P g (STACK_NAME g) 60) (\<lambda>w.
         bindM (set_tags fuel P g (STACK_NAME g) (BILLING_ENV g) (TEAM g)) (\<lambda>b. returnM True)))
        (\<lambda>err. sys_exit err) ?tr2"
    using create_stack_accepted [OF acc] by (simp add: create_request_def)
  show ?thesis
  proof (cases rule: wait_for_stack_cases [of fuel P g "STACK_NAME g" 60 ?tr2])
    case (ret tr3)
    then obtain polls where tr3: "tr3 = ?tr2 @ Enter_wait_for_stack (STACK_NAME g) 60 # polls"
      and polls: "set polls \<subseteq> {Describe_stacks_request (STACK_NAME g), Sleep 60}"
      by (rule wait_for_stack_returns_history)
    let ?h = "tr @ [Enter_create_stack t, create_request g t,
        Enter_wait_for_stack (STACK_NAME g) 60] @ polls"
    have h: "tr3 = ?h" using tr3 by simp
    let ?tags = "set_tags fuel P g (STACK_NAME g) (BILLING_ENV g) (TEAM g) ?h"
    obtain ext where ext: "snd ?tags = ?h @ ext"
      using appends_only_set_tags [of fuel P g "STACK_NAME g" "BILLING_ENV g" "TEAM g"]
      by (rule appends_onlyD)
    have nc: "\<And>err. fst ?tags \<noteq> Raise (ClientError err)"
      using no_ClientError_set_tags unfolding no_ClientError_def by blast
    have w: "wait_for_stack fuel P g (STACK_NAME g) 60 ?tr2 = (Return True, ?h)"
      using ret h by simp
    have whole: "create_stack fuel P g t tr =
        (case fst ?tags of Return b \<Rightarrow> Return True | Raise e \<Rightarrow> Raise e | Diverge \<Rightarrow> Diverge,
         snd ?tags)"
      using nc by (cases ?tags; cases "fst ?tags")
        (auto simp: run w run_defs split: exn.splits)
    have s: "snd (create_stack fuel P g t tr) =
        tr @ [Enter_create_stack t, create_request g t,
              Enter_wait_for_stack (STACK_NAME g) 60] @ polls @ ext"
      using ext by (simp add: whole)
    have r: "\<forall>b. fst (create_stack fuel P g t tr) = Return b \<longrightarrow>
        b = True \<and> (\<exists>b'. fst ?tags = Return b') \<and>
        tr @ [Enter_create_stack t, create_request g t,
              Enter_wait_for_stack (STACK_NAME g) 60] @ polls @ ext = snd ?tags"
    proof (intro allI impI)
      fix b assume "fst (create_stack fuel P g t tr) = Return b"
      then have "b = True \<and> (\<exists>b'. fst ?tags = Return b')"
        by (cases "fst ?tags") (simp_all add: whole)
      then show "b = True \<and> (\<exists>b'. fst ?tags = Return b') \<and>
          tr @ [Enter_create_stack t, create_request g t,
                Enter_wait_for_stack (STACK_NAME g) 60] @ polls @ ext = snd ?tags"
        using ext by simp
    qed
    show ?thesis
    proof (rule exI [of _ polls], rule exI [of _ ext], intro conjI)
      show "snd (create_stack fuel P g t tr) =
          tr @ [Enter_create_stack t, create_request g t,
                Enter_wait_for_stack (STACK_NAME g) 60] @ polls @ ext"
        by (rule s)
      show "set polls \<subseteq> {Describe_stacks_request (STACK_NAME g), Sleep 60}"
        by (rule polls)
      show "\<forall>b. fst (create_stack fuel P g t tr) = Return b \<longrightarrow>
          b = True \<and> (\<exists>b'. fst ?tags = Return b') \<and>
          tr @ [Enter_create_stack t, create_request g t,
                Enter_wait_for_stack (STACK_NAME g) 60] @ polls @ ext = snd ?tags"
        by (rule r)
    qed
  next
    case (exc e tr3)
    then obtain polls where tr3: "tr3 = ?tr2 @ Enter_wait_for_stack (STACK_NAME g) 60 # polls"
      and polls: "set polls \<subseteq> {Describe_stacks_request (STACK_NAME g), Sleep 60}"
      by (rule wait_for_stack_returns_history)
    have stop: "fst (create_stack fuel P g t tr) =
        Raise (case e of ClientError err \<Rightarrow> SystemExit err | _ \<Rightarrow> e) \<and>
        snd (create_stack fuel P g t tr) = tr3"
      by (simp add: run exc run_defs split: exn.splits)
    show ?thesis
      apply (rule exI [of _ polls])
      apply (rule exI [of _ "[]"])
      using stop apply (simp add: tr3 polls)
      done
  next
    case (div tr3)
    then obtain polls where tr3: "tr3 = ?tr2 @ Enter_wait_for_stack (STACK_NAME g) 60 # polls"
      and polls: "set polls \<subseteq> {Describe_stacks_request (STACK_NAME g), Sleep 60}"
      by (rule wait_for_stack_returns_history)
    have stop: "create_stack fuel P g t tr = (Diverge, tr3)"
      by (simp add: run div run_defs)
    show ?thesis
      apply (rule exI [of _ polls])
      apply (rule exI [of _ "[]"])
      using stop apply (simp add: tr3 polls)
      done
  qed
qed

subsection \<open>Validation and the existence probe\<close>

lemma validate_template_accepted:
  assumes "validate_template_result P (tr @ [Enter_validate_template t]) t = Inr ()"
  shows "validate_template P t tr =
           (Return True, tr @ [Enter_validate_template t, Validate_template_request t])"
  using assms by (simp add: validate_template_def run_defs conn_defs)

lemma validate_template_rejected:
  assumes "validate_template_result P (tr @ [Enter_validate_template t]) t = Inl err"
  shows "validate_template P t tr =
           (Raise (SystemExit err), tr @ [Enter_validate_template t, Validate_template_request t])"
  using assms by (simp add: validate_template_def run_defs conn_defs)

lemma provision_rejected:
  assumes "validate_template_result P [Enter_provision t, Enter_validate_template t] t = Inl err"
  shows "provision fuel P g t [] = (Raise (SystemExit err), probe_history t)"
  using assms validate_template_rejected [of P "[Enter_provision t]" t err]
  by (simp add: provision_def run_defs probe_history_def)

lemma provision_probe_error:
  assumes "validate_template_result P [Enter_provision t, Enter_validate_template t] t = Inr ()"
    and "describe_stacks_result P (probe_history t) (STACK_NAME g) = Inl err"
  shows "provision fuel P g t [] =
           (if endswith err ''does not exist''
            then bindM (create_stack fuel P g t) (\<lambda>b. returnM True)
                   (probe_history t @ [Describe_stacks_request (STACK_NAME g)])
            else (Raise (SystemExit err),
                  probe_history t @ [Describe_stacks_request (STACK_NAME g)]))"
  using assms validate_template_accepted [of P "[Enter_provision t]" t]
  by (simp add: provision_def run_defs probe_history_def conn_defs)

lemma provision_probe_answered:
  assumes "validate_template_result P [Enter_provision t, Enter_validate_template t] t = Inr ()"
    and "describe_stacks_result P (probe_history t) (STACK_NAME g) = Inr ss"
  shows "provision fuel P g t [] =
           bindM (for_stacks fuel P g t ss) (\<lambda>u. returnM False)
             (probe_history t @ [Describe_stacks_request (STACK_NAME g)])"
proof -
  let ?h = "probe_history t @ [Describe_stacks_request (STACK_NAME g)]"
  have nc: "\<And>err. fst (for_stacks fuel P g t ss ?h) \<noteq> Raise (ClientError err)"
    using no_ClientError_for_stacks unfolding no_ClientError_def by blast
  show ?thesis
  proof (cases "for_stacks fuel P g t ss ?h")
    case (Pair r tr')
    with nc have "\<And>err. r \<noteq> Raise (ClientError err)" by simp
    with Pair assms validate_template_accepted [of P "[Enter_provision t]" t] show ?thesis
      by (cases r) (auto simp: provision_def run_defs probe_history_def conn_defs split: exn.splits)
  qed
qed

lemma for_stacks_single:
  assumes "str_in (STACK_NAME g) (StackName s)"
  shows "for_stacks fuel P g t [s] = bindM (update_stack fuel P g t) (\<lambda>b. returnM ())"
  using assms by (auto simp: run_defs fun_eq_iff split: prod.splits outcome.splits)

lemma provision_true_needs_create:
  assumes "fst (provision fuel P g t []) = Return True"
  shows "create_entries (snd (provision fuel P g t [])) = 1"
proof (cases "validate_template_result P [Enter_provision t, Enter_validate_template t] t")
  case (Inl err)
  then have "provision fuel P g t [] = (Raise (SystemExit err), probe_history t)"
    by (rule provision_rejected)
  with assms show ?thesis by simp
next
  case (Inr u)
  then have valid: "validate_template_result P [Enter_provision t, Enter_validate_template t] t = Inr ()"
    by simp
  show ?thesis
  proof (cases "describe_stacks_result P (probe_history t) (STACK_NAME g)")
    case (Inl err)
    from provision_probe_error [OF valid Inl, of fuel] assms
    have nf: "endswith err ''does not exist''" by (auto split: if_splits)
    with provision_probe_error [OF valid Inl, of fuel]
    have run: "provision fuel P g t [] =
        bindM (create_stack fuel P g t) (\<lambda>b. returnM True)
          (probe_history t @ [Describe_stacks_request (STACK_NAME g)])"
      by simp
    show ?thesis
      by (simp add: run snd_bindM_returnM create_stack_entries entries_probe_history)
  next
    case (Inr ss)
    from provision_probe_answered [OF valid Inr, of fuel] assms
    show ?thesis by (simp add: fst_bindM_returnM split: outcome.splits)
  qed
qed


section \<open>The claims\<close>

subsection \<open>C1: status queries and sleeps of the waiter on a scripted sequence\<close>

text \<open>
  C1, as amended. The loop tests every \<open>queries_per_round g\<close>-th status of the script: every
  status when \<^verbatim>\<open>DEBUG\<close> is off, every second one when it is on (as the module sets it),
  because the loop body then queries the status once more for its message. If the first
  \<open>k\<close> statuses seen by the loop test are in \<open>wait_list\<close> and the next one is not, then
  \<^verbatim>\<open>wait_for_stack\<close> returns true after \<open>queries_per_round g * k + 1\<close> status queries and
  exactly \<open>k\<close> sleeps: \<open>k + 1\<close> queries with \<^verbatim>\<open>DEBUG\<close> off, \<open>2 * k + 1\<close> with \<^verbatim>\<open>DEBUG\<close> on.
\<close>

theorem wait_for_stack_queries_and_sleeps:
  assumes "\<forall>i<k. sts (queries_per_round g * i) \<in> set wait_list"
    and "sts (queries_per_round g * k) \<notin> set wait_list"
    and "k < fuel"
  shows "fst (wait_for_stack fuel (scripted sts P) g stack_name wait_time []) = Return True \<and>
         status_queries (snd (wait_for_stack fuel (scripted sts P) g stack_name wait_time [])) =
           queries_per_round g * k + 1 \<and>
         sleeps (snd (wait_for_stack fuel (scripted sts P) g stack_name wait_time [])) = k \<and>
         queries_per_round g = (if DEBUG g then 2 else 1)"
proof -
  have "wait_for_stack fuel (scripted sts P) g stack_name wait_time [] =
      (Return True,
       [] @ Enter_wait_for_stack stack_name wait_time #
         concat (replicate k (loop_round g stack_name wait_time)) @
         [Describe_stacks_request stack_name])"
    by (rule wait_for_stack_returns) (use assms in \<open>simp_all add: status_queries_def\<close>)
  then show ?thesis
    by (simp add: counts_of_returning_wait queries_per_round_def)
qed

text \<open>
  The theorem at the module's globals and the sequence in-progress, in-progress, complete:
  the loop test sees the first and the third status, so \<open>k = 1\<close>.
\<close>

theorem wait_for_stack_queries_and_sleeps_witness:
  "fst (wait_for_stack 2
     (scripted (statuses_then [''CREATE_IN_PROGRESS'', ''CREATE_IN_PROGRESS''] ''CREATE_COMPLETE'')
        accepting_provider)
     (module_globals ''demo-app'' ''prod'' ''ops'') ''demo-app'' 10 []) = Return True \<and>
   status_queries (snd (wait_for_stack 2
     (scripted (statuses_then [''CREATE_IN_PROGRESS'', ''CREATE_IN_PROGRESS''] ''CREATE_COMPLETE'')
        accepting_provider)
     (module_globals ''demo-app'' ''prod'' ''ops'') ''demo-app'' 10 [])) = 3 \<and>
   sleeps (snd (wait_for_stack 2
     (scripted (statuses_then [''CREATE_IN_PROGRESS'', ''CREATE_IN_PROGRESS''] ''CREATE_COMPLETE'')
        accepting_provider)
     (module_globals ''demo-app'' ''prod'' ''ops'') ''demo-app'' 10 [])) = 1"
  using wait_for_stack_queries_and_sleeps [of 1
      "statuses_then [''CREATE_IN_PROGRESS'', ''CREATE_IN_PROGRESS''] ''CREATE_COMPLETE''"
      "module_globals ''demo-app'' ''prod'' ''ops''" 2 accepting_provider "''demo-app''" 10]
  by (simp add: statuses_then_def wait_list_def queries_per_round_def module_globals_def)

text \<open>
  C1 as stated fails on the script as shipped: on the sequence in-progress, in-progress,
  complete the waiter issues three status queries and sleeps once, not twice. The second
  status is consumed by the query of line 165.
\<close>

theorem three_statuses_one_sleep:
  "wait_for_stack 3
     (scripted (statuses_then [''CREATE_IN_PROGRESS'', ''CREATE_IN_PROGRESS''] ''CREATE_COMPLETE'')
        accepting_provider)
     (module_globals ''demo-app'' ''prod'' ''ops'') ''demo-app'' 10 [] =
   (Return True,
    [Enter_wait_for_stack ''demo-app'' 10, Describe_stacks_request ''demo-app'',
     Describe_stacks_request ''demo-app'', Sleep 10, Describe_stacks_request ''demo-app'']) \<and>
   sleeps [Enter_wait_for_stack ''demo-app'' 10, Describe_stacks_request ''demo-app'',
     Describe_stacks_request ''demo-app'', Sleep 10, Describe_stacks_request ''demo-app''] \<noteq> 2"
  using wait_for_stack_returns [of 1
      "statuses_then [''CREATE_IN_PROGRESS'', ''CREATE_IN_PROGRESS''] ''CREATE_COMPLETE''" "[]"
      "module_globals ''demo-app'' ''prod'' ''ops''" 3 accepting_provider "''demo-app''" 10]
  by (simp add: statuses_then_def wait_list_def queries_per_round_def module_globals_def
        status_queries_def sleeps_def loop_round_def)

subsection \<open>C2: which statuses end the wait\<close>

text \<open>
  C2, as amended. On a stack that stays in status \<open>st\<close>: if \<open>st\<close> is not in \<open>wait_list\<close> the
  waiter returns true after one status query and no sleep, whether \<open>st\<close> is a success or a
  failure state; if \<open>st\<close> is in \<open>wait_list\<close> the waiter is still polling after every number
  of loop tests. Membership in \<open>wait_list\<close> alone decides. The settled statuses
  \<^verbatim>\<open>CREATE_COMPLETE\<close>, \<^verbatim>\<open>UPDATE_COMPLETE\<close>, \<^verbatim>\<open>UPDATE_ROLLBACK_COMPLETE\<close> and \<^verbatim>\<open>CREATE_FAILED\<close> are
  outside the list; \<^verbatim>\<open>ROLLBACK_COMPLETE\<close> is a member of it (line 160).
\<close>

theorem waiter_ends_on_status_outside_wait_list:
  "(st \<notin> set wait_list \<longrightarrow>
      wait_for_stack (Suc fuel) (scripted (statuses_then [] st) P) g stack_name wait_time tr =
        (Return True,
         tr @ [Enter_wait_for_stack stack_name wait_time, Describe_stacks_request stack_name])) \<and>
   (st \<in> set wait_list \<longrightarrow>
      fst (wait_for_stack fuel (scripted (statuses_then [] st) P) g stack_name wait_time tr) =
        Diverge \<and>
      sleeps (snd (wait_for_stack fuel (scripted (statuses_then [] st) P) g stack_name wait_time tr)) =
        sleeps tr + fuel) \<and>
   ''CREATE_COMPLETE'' \<notin> set wait_list \<and> ''UPDATE_COMPLETE'' \<notin> set wait_list \<and>
   ''UPDATE_ROLLBACK_COMPLETE'' \<notin> set wait_list \<and> ''CREATE_FAILED'' \<notin> set wait_list \<and>
   ''ROLLBACK_COMPLETE'' \<in> set wait_list"
proof (intro conjI impI)
  assume out: "st \<notin> set wait_list"
  have "wait_for_stack (Suc fuel) (scripted (statuses_then [] st) P) g stack_name wait_time tr =
      (Return True,
       tr @ Enter_wait_for_stack stack_name wait_time #
         concat (replicate 0 (loop_round g stack_name wait_time)) @
         [Describe_stacks_request stack_name])"
    by (rule wait_for_stack_returns) (use out in \<open>simp_all add: statuses_then_Nil\<close>)
  then show "wait_for_stack (Suc fuel) (scripted (statuses_then [] st) P) g stack_name wait_time tr =
      (Return True,
       tr @ [Enter_wait_for_stack stack_name wait_time, Describe_stacks_request stack_name])"
    by simp
next
  assume busy: "st \<in> set wait_list"
  have run: "wait_for_stack fuel (scripted (statuses_then [] st) P) g stack_name wait_time tr =
      (Diverge,
       tr @ Enter_wait_for_stack stack_name wait_time #
         concat (replicate fuel (loop_round g stack_name wait_time)))"
    by (rule wait_for_stack_diverges) (use busy in \<open>simp add: statuses_then_Nil\<close>)
  show "fst (wait_for_stack fuel (scripted (statuses_then [] st) P) g stack_name wait_time tr) =
      Diverge"
    by (simp add: run)
  show "sleeps (snd (wait_for_stack fuel (scripted (statuses_then [] st) P) g stack_name wait_time tr)) =
      sleeps tr + fuel"
    using counts_of_diverging_wait [of stack_name wait_time fuel g]
    by (simp add: run sleeps_def)
qed (simp_all add: settled_outside_wait_list)

text \<open>The theorem at a failure state outside the list and at an in-progress state.\<close>

theorem waiter_ends_on_status_outside_wait_list_witness:
  "''UPDATE_ROLLBACK_COMPLETE'' \<notin> set wait_list \<and>
   wait_for_stack (Suc 0) (scripted (statuses_then [] ''UPDATE_ROLLBACK_COMPLETE'') accepting_provider)
     (module_globals ''demo-app'' ''prod'' ''ops'') ''demo-app'' 10 [] =
     (Return True, [Enter_wait_for_stack ''demo-app'' 10, Describe_stacks_request ''demo-app'']) \<and>
   ''UPDATE_IN_PROGRESS'' \<in> set wait_list \<and>
   fst (wait_for_stack 7 (scripted (statuses_then [] ''UPDATE_IN_PROGRESS'') accepting_provider)
     (module_globals ''demo-app'' ''prod'' ''ops'') ''demo-app'' 10 []) = Diverge"
proof -
  have a: "''UPDATE_ROLLBACK_COMPLETE'' \<notin> set wait_list" by (simp add: wait_list_def)
  have b: "''UPDATE_IN_PROGRESS'' \<in> set wait_list" by (simp add: wait_list_def)
  from a b
    waiter_ends_on_status_outside_wait_list [of "''UPDATE_ROLLBACK_COMPLETE''" 0 accepting_provider
      "module_globals ''demo-app'' ''prod'' ''ops''" "''demo-app''" 10 "[]"]
    waiter_ends_on_status_outside_wait_list [of "''UPDATE_IN_PROGRESS''" 7 accepting_provider
      "module_globals ''demo-app'' ''prod'' ''ops''" "''demo-app''" 10 "[]"]
  show ?thesis by simp
qed

text \<open>
  C2 as stated fails for rollback-complete: a stack that stays in \<^verbatim>\<open>ROLLBACK_COMPLETE\<close>
  keeps the waiter polling for every bound on the loop tests, with one sleep per test.
\<close>

theorem rollback_complete_keeps_polling:
  "\<forall>fuel. fst (wait_for_stack fuel (scripted (statuses_then [] ''ROLLBACK_COMPLETE'') accepting_provider)
     (module_globals ''demo-app'' ''prod'' ''ops'') ''demo-app'' 10 []) = Diverge \<and>
   sleeps (snd (wait_for_stack fuel
     (scripted (statuses_then [] ''ROLLBACK_COMPLETE'') accepting_provider)
     (module_globals ''demo-app'' ''prod'' ''ops'') ''demo-app'' 10 [])) = fuel"
proof
  fix fuel
  have "wait_for_stack fuel (scripted (statuses_then [] ''ROLLBACK_COMPLETE'') accepting_provider)
      (module_globals ''demo-app'' ''prod'' ''ops'') ''demo-app'' 10 [] =
      (Diverge, [] @ Enter_wait_for_stack ''demo-app'' 10 #
         concat (replicate fuel (loop_round (module_globals ''demo-app'' ''prod'' ''ops'') ''demo-app'' 10)))"
    by (rule wait_for_stack_diverges) (simp add: statuses_then_Nil wait_list_def)
  then show "fst (wait_for_stack fuel (scripted (statuses_then [] ''ROLLBACK_COMPLETE'') accepting_provider)
     (module_globals ''demo-app'' ''prod'' ''ops'') ''demo-app'' 10 []) = Diverge \<and>
   sleeps (snd (wait_for_stack fuel
     (scripted (statuses_then [] ''ROLLBACK_COMPLETE'') accepting_provider)
     (module_globals ''demo-app'' ''prod'' ''ops'') ''demo-app'' 10 [])) = fuel"
    by (simp add: counts_of_diverging_wait)
qed

subsection \<open>C3: an error of the update request\<close>

text \<open>
  C3, as amended. Whatever error the provider raises for the update request (the waiter
  before it having returned), \<^verbatim>\<open>update_stack\<close> does not exit on that error: it goes on exactly
  as \<^verbatim>\<open>set_tags\<close> followed by returning true, from the history that ends with the update
  request. So tag reconciliation is entered next, \<^verbatim>\<open>update_stack\<close> returns true whenever
  \<^verbatim>\<open>set_tags\<close> returns, whatever it returns, and an exception or an endless wait of
  \<^verbatim>\<open>update_stack\<close> is one of \<^verbatim>\<open>set_tags\<close>. The error's message is not looked at, so the
  provider's no-updates error is treated like any other.
\<close>

theorem update_error_is_swallowed:
  assumes "wait_for_stack fuel P g (STACK_NAME g) 10 (tr @ [Enter_update_stack t]) = (Return True, tr1)"
    and "update_stack_result P tr1 (STACK_NAME g) [''CAPABILITY_IAM''] t = Inl err"
  shows "update_stack fuel P g t tr =
           bindM (set_tags fuel P g (STACK_NAME g) (BILLING_ENV g) (TEAM g)) (\<lambda>b. returnM True)
             (tr1 @ [Update_stack_request (STACK_NAME g) [''CAPABILITY_IAM''] t]) \<and>
         (\<exists>rest. snd (update_stack fuel P g t tr) =
            tr1 @ [Update_stack_request (STACK_NAME g) [''CAPABILITY_IAM''] t,
                   Enter_set_tags (STACK_NAME g) (BILLING_ENV g) (TEAM g)] @ rest) \<and>
         fst (update_stack fuel P g t tr) =
           (case fst (set_tags fuel P g (STACK_NAME g) (BILLING_ENV g) (TEAM g)
                        (tr1 @ [Update_stack_request (STACK_NAME g) [''CAPABILITY_IAM''] t])) of
              Return b \<Rightarrow> Return True
            | Raise e \<Rightarrow> Raise e
            | Diverge \<Rightarrow> Diverge)"
proof -
  let ?h = "tr1 @ [Update_stack_request (STACK_NAME g) [''CAPABILITY_IAM''] t]"
  have run: "update_stack fuel P g t tr =
      bindM (set_tags fuel P g (STACK_NAME g) (BILLING_ENV g) (TEAM g)) (\<lambda>b. returnM True) ?h"
    using assms by (rule update_stack_update_error)
  obtain rest where "snd (set_tags fuel P g (STACK_NAME g) (BILLING_ENV g) (TEAM g) ?h) =
      ?h @ Enter_set_tags (STACK_NAME g) (BILLING_ENV g) (TEAM g) # rest"
    using set_tags_starts by blast
  then have "snd (update_stack fuel P g t tr) =
      tr1 @ [Update_stack_request (STACK_NAME g) [''CAPABILITY_IAM''] t,
             Enter_set_tags (STACK_NAME g) (BILLING_ENV g) (TEAM g)] @ rest"
    by (simp add: run snd_bindM_returnM)
  then have "\<exists>rest. snd (update_stack fuel P g t tr) =
      tr1 @ [Update_stack_request (STACK_NAME g) [''CAPABILITY_IAM''] t,
             Enter_set_tags (STACK_NAME g) (BILLING_ENV g) (TEAM g)] @ rest"
    by blast
  moreover have "fst (update_stack fuel P g t tr) =
      (case fst (set_tags fuel P g (STACK_NAME g) (BILLING_ENV g) (TEAM g) ?h) of
         Return b \<Rightarrow> Return True | Raise e \<Rightarrow> Raise e | Diverge \<Rightarrow> Diverge)"
    by (simp add: run fst_bindM_returnM)
  ultimately show ?thesis using run by simp
qed

text \<open>
  The theorem on a provider that answers both the update request and the tag request with
  its no-updates error: \<^verbatim>\<open>update_stack\<close> returns true.
\<close>

theorem update_error_is_swallowed_witness:
  "update_stack_result
     (failing_updates ''No updates are to be performed.'' ''No updates are to be performed.'')
     [Enter_update_stack ''template'', Enter_wait_for_stack ''demo-app'' 10,
      Describe_stacks_request ''demo-app'']
     ''demo-app'' [''CAPABILITY_IAM''] ''template'' = Inl ''No updates are to be performed.'' \<and>
   fst (update_stack 1
     (failing_updates ''No updates are to be performed.'' ''No updates are to be performed.'')
     (module_globals ''demo-app'' ''prod'' ''ops'') ''template'' []) = Return True"
proof -
  let ?g = "module_globals ''demo-app'' ''prod'' ''ops''"
  let ?noop = "''No updates are to be performed.''"
  let ?tr1 = "[Enter_update_stack ''template'', Enter_wait_for_stack ''demo-app'' 10,
      Describe_stacks_request ''demo-app'']"
  have w: "wait_for_stack 1 (failing_updates ?noop ?noop) ?g (STACK_NAME ?g) 10
      ([] @ [Enter_update_stack ''template'']) = (Return True, ?tr1)"
    by (simp add: script_defs more_provider_defs)
  have u: "update_stack_result (failing_updates ?noop ?noop) ?tr1 (STACK_NAME ?g)
      [''CAPABILITY_IAM''] ''template'' = Inl ?noop"
    by (simp add: more_provider_defs)
  have s: "fst (set_tags 1 (failing_updates ?noop ?noop) ?g (STACK_NAME ?g) (BILLING_ENV ?g) (TEAM ?g)
      (?tr1 @ [Update_stack_request (STACK_NAME ?g) [''CAPABILITY_IAM''] ''template''])) =
      Return False"
    by (simp add: script_defs more_provider_defs)
  from update_error_is_swallowed [OF w u]
  have "fst (update_stack 1 (failing_updates ?noop ?noop) ?g ''template'' []) =
      (case fst (set_tags 1 (failing_updates ?noop ?noop) ?g (STACK_NAME ?g) (BILLING_ENV ?g) (TEAM ?g)
         (?tr1 @ [Update_stack_request (STACK_NAME ?g) [''CAPABILITY_IAM''] ''template''])) of
         Return b \<Rightarrow> Return True | Raise e \<Rightarrow> Raise e | Diverge \<Rightarrow> Diverge)"
    by blast
  with s have "fst (update_stack 1 (failing_updates ?noop ?noop) ?g ''template'' []) = Return True"
    by simp
  with u show ?thesis by (simp add: module_globals_def)
qed

text \<open>
  C3 as stated fails when tag reconciliation fails too: on a provider that refuses the
  update request and then the tag request with an error that does not end in
  \<^verbatim>\<open>to be performed.\<close>, \<^verbatim>\<open>update_stack\<close> does not return true; the process exits with
  status 1 inside the error branch.
\<close>

theorem update_error_then_tag_error_exits:
  "update_stack_result
     (failing_updates ''Stack is in UPDATE_ROLLBACK_FAILED state and can not be updated.''
        ''Stack is in UPDATE_ROLLBACK_FAILED state and can not be updated.'')
     [Enter_update_stack ''template'', Enter_wait_for_stack ''demo-app'' 10,
      Describe_stacks_request ''demo-app'']
     ''demo-app'' [''CAPABILITY_IAM''] ''template'' =
     Inl ''Stack is in UPDATE_ROLLBACK_FAILED state and can not be updated.'' \<and>
   update_stack 1
     (failing_updates ''Stack is in UPDATE_ROLLBACK_FAILED state and can not be updated.''
        ''Stack is in UPDATE_ROLLBACK_FAILED state and can not be updated.'')
     (module_globals ''demo-app'' ''prod'' ''ops'') ''template'' [] =
     (Raise (SystemExit ''Stack is in UPDATE_ROLLBACK_FAILED state and can not be updated.''),
      [Enter_update_stack ''template'', Enter_wait_for_stack ''demo-app'' 10,
       Describe_stacks_request ''demo-app'',
       Update_stack_request ''demo-app'' [''CAPABILITY_IAM''] ''template'',
       Enter_set_tags ''demo-app'' ''prod'' ''ops'', Enter_wait_for_stack ''demo-app'' 10,
       Describe_stacks_request ''demo-app'', tag_request ''demo-app'' ''prod'' ''ops'']) \<and>
   exit_status (fst (update_stack 1
     (failing_updates ''Stack is in UPDATE_ROLLBACK_FAILED state and can not be updated.''
        ''Stack is in UPDATE_ROLLBACK_FAILED state and can not be updated.'')
     (module_globals ''demo-app'' ''prod'' ''ops'') ''template'' [])) = Some 1"
  by (simp add: script_defs more_provider_defs)

subsection \<open>C4: an error of the existence probe\<close>

text \<open>
  C4. In a run of \<^verbatim>\<open>provision\<close> whose template passes validation and whose existence probe
  raises an error with message \<open>err\<close>: if \<open>err\<close> ends in \<^verbatim>\<open>does not exist\<close>, the run goes on
  as \<^verbatim>\<open>create_stack\<close> followed by returning true, with one entry of the create path and none
  of the update path; otherwise the run ends at the probe with \<^verbatim>\<open>SystemExit\<close> carrying
  \<open>err\<close>, exit status 1, \<open>err\<close> as the message printed, and neither path entered nor any
  mutating request sent.
\<close>

theorem provision_probe_error_classified:
  assumes "validate_template_result P [Enter_provision t, Enter_validate_template t] t = Inr ()"
    and "describe_stacks_result P (probe_history t) (STACK_NAME g) = Inl err"
  shows "(endswith err ''does not exist'' \<longrightarrow>
            provision fuel P g t [] =
              bindM (create_stack fuel P g t) (\<lambda>b. returnM True)
                (probe_history t @ [Describe_stacks_request (STACK_NAME g)]) \<and>
            create_entries (snd (provision fuel P g t [])) = 1 \<and>
            update_entries (snd (provision fuel P g t [])) = 0) \<and>
         (\<not> endswith err ''does not exist'' \<longrightarrow>
            provision fuel P g t [] =
              (Raise (SystemExit err), probe_history t @ [Describe_stacks_request (STACK_NAME g)]) \<and>
            exit_status (fst (provision fuel P g t [])) = Some 1 \<and>
            exit_message (fst (provision fuel P g t [])) = Some err \<and>
            create_entries (snd (provision fuel P g t [])) = 0 \<and>
            update_entries (snd (provision fuel P g t [])) = 0 \<and>
            filter is_mutation_request (snd (provision fuel P g t [])) = [])"
proof (intro conjI impI)
  assume nf: "endswith err ''does not exist''"
  with provision_probe_error [OF assms, of fuel]
  show run: "provision fuel P g t [] =
      bindM (create_stack fuel P g t) (\<lambda>b. returnM True)
        (probe_history t @ [Describe_stacks_request (STACK_NAME g)])"
    by simp
  show "create_entries (snd (provision fuel P g t [])) = 1"
    by (simp add: run snd_bindM_returnM create_stack_entries entries_probe_history)
  show "update_entries (snd (provision fuel P g t [])) = 0"
    by (simp add: run snd_bindM_returnM create_stack_entries entries_probe_history)
next
  assume other: "\<not> endswith err ''does not exist''"
  with provision_probe_error [OF assms, of fuel]
  show run: "provision fuel P g t [] =
      (Raise (SystemExit err), probe_history t @ [Describe_stacks_request (STACK_NAME g)])"
    by simp
  show "exit_status (fst (provision fuel P g t [])) = Some 1" by (simp add: run)
  show "exit_message (fst (provision fuel P g t [])) = Some err" by (simp add: run)
  show "create_entries (snd (provision fuel P g t [])) = 0"
    by (simp add: run entries_probe_history)
  show "update_entries (snd (provision fuel P g t [])) = 0"
    by (simp add: run entries_probe_history)
  show "filter is_mutation_request (snd (provision fuel P g t [])) = []"
    by (simp add: run probe_history_def)
qed

text \<open>The theorem on an account without the stack and on a provider denying the probe.\<close>

theorem provision_probe_error_classified_witness:
  "endswith ''Stack with id demo-app does not exist'' ''does not exist'' \<and>
   create_entries (snd (provision 1 fresh_account (module_globals ''demo-app'' ''prod'' ''ops'')
     ''template'' [])) = 1 \<and>
   \<not> endswith ''AccessDenied'' ''does not exist'' \<and>
   provision 1 (denying_provider ''AccessDenied'') (module_globals ''demo-app'' ''prod'' ''ops'')
     ''template'' [] =
     (Raise (SystemExit ''AccessDenied''),
      [Enter_provision ''template'', Enter_validate_template ''template'',
       Validate_template_request ''template'', Describe_stacks_request ''demo-app'']) \<and>
   exit_status (fst (provision 1 (denying_provider ''AccessDenied'')
     (module_globals ''demo-app'' ''prod'' ''ops'') ''template'' [])) = Some 1"
proof -
  let ?g = "module_globals ''demo-app'' ''prod'' ''ops''"
  have v1: "validate_template_result fresh_account
      [Enter_provision ''template'', Enter_validate_template ''template''] ''template'' = Inr ()"
    by (simp add: provider_defs)
  have p1: "describe_stacks_result fresh_account (probe_history ''template'') (STACK_NAME ?g) =
      Inl ''Stack with id demo-app does not exist''"
    by (simp add: provider_defs)
  have e1: "endswith ''Stack with id demo-app does not exist'' ''does not exist''"
    by (simp add: provider_defs)
  have v2: "validate_template_result (denying_provider ''AccessDenied'')
      [Enter_provision ''template'', Enter_validate_template ''template''] ''template'' = Inr ()"
    by (simp add: provider_defs)
  have p2: "describe_stacks_result (denying_provider ''AccessDenied'') (probe_history ''template'')
      (STACK_NAME ?g) = Inl ''AccessDenied''"
    by (simp add: provider_defs)
  have e2: "\<not> endswith ''AccessDenied'' ''does not exist''"
    by (simp add: provider_defs)
  from provision_probe_error_classified [OF v1 p1, of 1] e1
  have a: "create_entries (snd (provision 1 fresh_account ?g ''template'' [])) = 1"
    by blast
  from provision_probe_error_classified [OF v2 p2, of 1] e2
  have b: "provision 1 (denying_provider ''AccessDenied'') ?g ''template'' [] =
      (Raise (SystemExit ''AccessDenied''),
       probe_history ''template'' @ [Describe_stacks_request (STACK_NAME ?g)]) \<and>
      exit_status (fst (provision 1 (denying_provider ''AccessDenied'') ?g ''template'' [])) = Some 1"
    by blast
  from a b e1 e2 show ?thesis by (simp add: probe_history_def module_globals_def)
qed

subsection \<open>C5: create or update, exactly once\<close>

text \<open>
  C5. In a run of \<^verbatim>\<open>provision\<close> whose template is accepted by the validation: if the
  existence probe fails with a message ending in \<^verbatim>\<open>does not exist\<close> (the stack is absent),
  \<^verbatim>\<open>create_stack\<close> is entered exactly once and \<^verbatim>\<open>update_stack\<close> never; if the probe answers
  with the stack of the given name, \<^verbatim>\<open>update_stack\<close> is entered exactly once and
  \<^verbatim>\<open>create_stack\<close> never. This holds for every bound on the loop tests, so also for the
  runs that exit or never end inside the path taken.
\<close>

theorem provision_create_or_update_once:
  assumes "validate_template_result P [Enter_provision t, Enter_validate_template t] t = Inr ()"
  shows "(\<forall>err. describe_stacks_result P (probe_history t) (STACK_NAME g) = Inl err \<and>
                endswith err ''does not exist'' \<longrightarrow>
            create_entries (snd (provision fuel P g t [])) = 1 \<and>
            update_entries (snd (provision fuel P g t [])) = 0) \<and>
         (\<forall>s. describe_stacks_result P (probe_history t) (STACK_NAME g) = Inr [s] \<and>
              StackName s = STACK_NAME g \<longrightarrow>
            update_entries (snd (provision fuel P g t [])) = 1 \<and>
            create_entries (snd (provision fuel P g t [])) = 0)"
proof (intro conjI allI impI)
  fix err
  assume a: "describe_stacks_result P (probe_history t) (STACK_NAME g) = Inl err \<and>
             endswith err ''does not exist''"
  then have run: "provision fuel P g t [] =
      bindM (create_stack fuel P g t) (\<lambda>b. returnM True)
        (probe_history t @ [Describe_stacks_request (STACK_NAME g)])"
    using provision_probe_error [OF assms, of g err fuel] by simp
  show "create_entries (snd (provision fuel P g t [])) = 1"
    by (simp add: run snd_bindM_returnM create_stack_entries entries_probe_history)
  show "update_entries (snd (provision fuel P g t [])) = 0"
    by (simp add: run snd_bindM_returnM create_stack_entries entries_probe_history)
next
  fix s
  assume a: "describe_stacks_result P (probe_history t) (STACK_NAME g) = Inr [s] \<and>
             StackName s = STACK_NAME g"
  then have "str_in (STACK_NAME g) (StackName s)" by (simp add: str_in_def)
  then have loop: "for_stacks fuel P g t [s] = bindM (update_stack fuel P g t) (\<lambda>b. returnM ())"
    by (rule for_stacks_single)
  have run: "provision fuel P g t [] =
      bindM (bindM (update_stack fuel P g t) (\<lambda>b. returnM ())) (\<lambda>u. returnM False)
        (probe_history t @ [Describe_stacks_request (STACK_NAME g)])"
    using provision_probe_answered [OF assms, of g "[s]" fuel] a loop by simp
  show "update_entries (snd (provision fuel P g t [])) = 1"
    by (simp add: run snd_bindM_returnM update_stack_entries entries_probe_history)
  show "create_entries (snd (provision fuel P g t [])) = 0"
    by (simp add: run snd_bindM_returnM update_stack_entries entries_probe_history)
qed

text \<open>The theorem on an account without the stack and on one with it.\<close>

theorem provision_create_or_update_once_witness:
  "describe_stacks_result fresh_account (probe_history ''template'') ''demo-app'' =
     Inl ''Stack with id demo-app does not exist'' \<and>
   create_entries (snd (provision 1 fresh_account (module_globals ''demo-app'' ''prod'' ''ops'')
     ''template'' [])) = 1 \<and>
   update_entries (snd (provision 1 fresh_account (module_globals ''demo-app'' ''prod'' ''ops'')
     ''template'' [])) = 0 \<and>
   describe_stacks_result accepting_provider (probe_history ''template'') ''demo-app'' =
     Inr [\<lparr>StackName = ''demo-app'', StackStatus = ''CREATE_COMPLETE''\<rparr>] \<and>
   update_entries (snd (provision 1 accepting_provider (module_globals ''demo-app'' ''prod'' ''ops'')
     ''template'' [])) = 1 \<and>
   create_entries (snd (provision 1 accepting_provider (module_globals ''demo-app'' ''prod'' ''ops'')
     ''template'' [])) = 0"
proof -
  let ?g = "module_globals ''demo-app'' ''prod'' ''ops''"
  have v1: "validate_template_result fresh_account
      [Enter_provision ''template'', Enter_validate_template ''template''] ''template'' = Inr ()"
    by (simp add: provider_defs)
  have v2: "validate_template_result accepting_provider
      [Enter_provision ''template'', Enter_validate_template ''template''] ''template'' = Inr ()"
    by (simp add: provider_defs)
  have p1: "describe_stacks_result fresh_account (probe_history ''template'') (STACK_NAME ?g) =
      Inl ''Stack with id demo-app does not exist'' \<and>
      endswith ''Stack with id demo-app does not exist'' ''does not exist''"
    by (simp add: provider_defs)
  have p2: "describe_stacks_result accepting_provider (probe_history ''template'') (STACK_NAME ?g) =
      Inr [\<lparr>StackName = ''demo-app'', StackStatus = ''CREATE_COMPLETE''\<rparr>] \<and>
      StackName \<lparr>StackName = ''demo-app'', StackStatus = ''CREATE_COMPLETE''\<rparr> = STACK_NAME ?g"
    by (simp add: provider_defs)
  from provision_create_or_update_once [OF v1, of ?g 1] p1
  have a: "create_entries (snd (provision 1 fresh_account ?g ''template'' [])) = 1 \<and>
        update_entries (snd (provision 1 fresh_account ?g ''template'' [])) = 0"
    by blast
  from provision_create_or_update_once [OF v2, of ?g 1] p2
  have b: "update_entries (snd (provision 1 accepting_provider ?g ''template'' [])) = 1 \<and>
        create_entries (snd (provision 1 accepting_provider ?g ''template'' [])) = 0"
    by blast
  from a b p1 p2 show ?thesis by (simp add: module_globals_def)
qed

subsection \<open>C6: a template that fails validation\<close>

text \<open>
  C6. When the provider rejects the template with error \<open>err\<close>, \<^verbatim>\<open>validate_template\<close> raises
  \<^verbatim>\<open>SystemExit\<close> carrying \<open>err\<close>, which \<^verbatim>\<open>provision\<close> does not catch: the run ends right after
  the validation request with exit status 1, and its history holds no create, update or tag
  request and no entry of the create or update path.
\<close>

theorem validation_failure_exits_before_mutation:
  assumes "validate_template_result P [Enter_provision t, Enter_validate_template t] t = Inl err"
  shows "validate_template P t [Enter_provision t] = (Raise (SystemExit err), probe_history t) \<and>
         provision fuel P g t [] = (Raise (SystemExit err), probe_history t) \<and>
         exit_status (fst (provision fuel P g t [])) = Some 1 \<and>
         exit_message (fst (provision fuel P g t [])) = Some err \<and>
         filter is_mutation_request (snd (provision fuel P g t [])) = [] \<and>
         create_entries (snd (provision fuel P g t [])) = 0 \<and>
         update_entries (snd (provision fuel P g t [])) = 0"
proof -
  have v: "validate_template P t [Enter_provision t] = (Raise (SystemExit err), probe_history t)"
    using validate_template_rejected [of P "[Enter_provision t]" t err] assms
    by (simp add: probe_history_def)
  have run: "provision fuel P g t [] = (Raise (SystemExit err), probe_history t)"
    using assms by (rule provision_rejected)
  show ?thesis
    by (simp add: v run) (simp add: probe_history_def create_entries_def update_entries_def)
qed

text \<open>The theorem on a provider that rejects every template.\<close>

theorem validation_failure_exits_before_mutation_witness:
  "validate_template_result (rejecting_provider ''Template format error'')
     [Enter_provision ''template'', Enter_validate_template ''template''] ''template'' =
     Inl ''Template format error'' \<and>
   provision 1 (rejecting_provider ''Template format error'')
     (module_globals ''demo-app'' ''prod'' ''ops'') ''template'' [] =
     (Raise (SystemExit ''Template format error''),
      [Enter_provision ''template'', Enter_validate_template ''template'',
       Validate_template_request ''template'']) \<and>
   exit_status (fst (provision 1 (rejecting_provider ''Template format error'')
     (module_globals ''demo-app'' ''prod'' ''ops'') ''template'' [])) = Some 1"
proof -
  have v: "validate_template_result (rejecting_provider ''Template format error'')
      [Enter_provision ''template'', Enter_validate_template ''template''] ''template'' =
      Inl ''Template format error''"
    by (simp add: provider_defs)
  from validation_failure_exits_before_mutation [OF v, of 1
      "module_globals ''demo-app'' ''prod'' ''ops''"] v
  show ?thesis by (simp add: probe_history_def)
qed

subsection \<open>C7: the create path\<close>

text \<open>
  C7. \<^verbatim>\<open>create_stack\<close> first sends the create request with capabilities
  \<^verbatim>\<open>['CAPABILITY_IAM']\<close> and \<^verbatim>\<open>OnFailure='DO_NOTHING'\<close>. When the provider accepts it, the
  waiter is entered next with poll interval 60, while every entry of the waiter in a run of
  \<^verbatim>\<open>update_stack\<close> has poll interval 10. When \<^verbatim>\<open>create_stack\<close> returns, on a provider that
  answers every status query with a status, it returns true and its history is: the
  create request, the waiter's entry with interval 60, that waiter's status queries and
  sleeps of 60 seconds, the entry of \<^verbatim>\<open>set_tags\<close> with the module's stack name, billing
  environment and team, and after it the tag request with the three tags
  \<^verbatim>\<open>Billing_Env\<close>, \<^verbatim>\<open>Team\<close> and \<^verbatim>\<open>Project\<close> = stack name.
\<close>

theorem create_path_request_wait_and_tags:
  "(\<exists>rest. snd (create_stack fuel P g t tr) =
       tr @ [Enter_create_stack t,
             Create_stack_request (STACK_NAME g) [''CAPABILITY_IAM''] t ''DO_NOTHING''] @ rest) \<and>
   (create_stack_result P (tr @ [Enter_create_stack t]) (STACK_NAME g) [''CAPABILITY_IAM''] t
      ''DO_NOTHING'' = Inr sid \<longrightarrow>
      (\<exists>rest. snd (create_stack fuel P g t tr) =
         tr @ [Enter_create_stack t, create_request g t,
               Enter_wait_for_stack (STACK_NAME g) 60] @ rest)) \<and>
   (\<forall>n w. Enter_wait_for_stack n w \<in> set (snd (update_stack fuel P g t [])) \<longrightarrow>
      w = 10 \<and> w < 60) \<and>
   (fst (create_stack fuel (scripted sts P) g t tr) = Return b \<longrightarrow>
      b = True \<and>
      (\<exists>polls rest. snd (create_stack fuel (scripted sts P) g t tr) =
         tr @ [Enter_create_stack t, create_request g t,
               Enter_wait_for_stack (STACK_NAME g) 60] @ polls @
           Enter_set_tags (STACK_NAME g) (BILLING_ENV g) (TEAM g) # rest \<and>
         set polls \<subseteq> {Describe_stacks_request (STACK_NAME g), Sleep 60} \<and>
         tag_request (STACK_NAME g) (BILLING_ENV g) (TEAM g) \<in> set rest))"
proof (intro conjI impI allI)
  show "\<exists>rest. snd (create_stack fuel P g t tr) =
       tr @ [Enter_create_stack t,
             Create_stack_request (STACK_NAME g) [''CAPABILITY_IAM''] t ''DO_NOTHING''] @ rest"
  proof (cases "create_stack_result P (tr @ [Enter_create_stack t]) (STACK_NAME g)
      [''CAPABILITY_IAM''] t ''DO_NOTHING''")
    case (Inl err)
    then show ?thesis by (simp add: create_stack_rejected)
  next
    case (Inr sid')
    from create_stack_accepted_run [OF Inr, of fuel] show ?thesis
      by (auto simp: create_request_def)
  qed
next
  assume "create_stack_result P (tr @ [Enter_create_stack t]) (STACK_NAME g) [''CAPABILITY_IAM''] t
      ''DO_NOTHING'' = Inr sid"
  from create_stack_accepted_run [OF this, of fuel]
  show "\<exists>rest. snd (create_stack fuel P g t tr) =
         tr @ [Enter_create_stack t, create_request g t,
               Enter_wait_for_stack (STACK_NAME g) 60] @ rest"
    by auto
next
  fix n w
  assume "Enter_wait_for_stack n w \<in> set (snd (update_stack fuel P g t []))"
  with update_stack_waits_10 [of fuel P g t] have "waits_10 (Enter_wait_for_stack n w)"
    unfolding list_all_iff by blast
  then show "w = 10" by simp
  then show "w < 60" by simp
next
  assume ret: "fst (create_stack fuel (scripted sts P) g t tr) = Return b"
  let ?Q = "scripted sts P"
  obtain sid' where acc: "create_stack_result ?Q (tr @ [Enter_create_stack t]) (STACK_NAME g)
      [''CAPABILITY_IAM''] t ''DO_NOTHING'' = Inr sid'"
  proof (cases "create_stack_result ?Q (tr @ [Enter_create_stack t]) (STACK_NAME g)
      [''CAPABILITY_IAM''] t ''DO_NOTHING''")
    case (Inl err)
    with ret create_stack_rejected [of ?Q tr t g err fuel] show ?thesis by simp
  next
    case (Inr s)
    with that show ?thesis by blast
  qed
  from create_stack_accepted_run [OF acc, of fuel] ret
  obtain polls more b' where
    whole: "snd (create_stack fuel ?Q g t tr) =
        tr @ [Enter_create_stack t, create_request g t, Enter_wait_for_stack (STACK_NAME g) 60] @
          polls @ more"
    and polls: "set polls \<subseteq> {Describe_stacks_request (STACK_NAME g), Sleep 60}"
    and b: "b = True"
    and tags: "fst (set_tags fuel ?Q g (STACK_NAME g) (BILLING_ENV g) (TEAM g)
        (tr @ [Enter_create_stack t, create_request g t,
               Enter_wait_for_stack (STACK_NAME g) 60] @ polls)) = Return b'"
    and same: "tr @ [Enter_create_stack t, create_request g t,
        Enter_wait_for_stack (STACK_NAME g) 60] @ polls @ more =
        snd (set_tags fuel ?Q g (STACK_NAME g) (BILLING_ENV g) (TEAM g)
          (tr @ [Enter_create_stack t, create_request g t,
                 Enter_wait_for_stack (STACK_NAME g) 60] @ polls))"
    by blast
  from set_tags_scripted_returns [OF tags]
  obtain rest where rest: "snd (set_tags fuel ?Q g (STACK_NAME g) (BILLING_ENV g) (TEAM g)
        (tr @ [Enter_create_stack t, create_request g t,
               Enter_wait_for_stack (STACK_NAME g) 60] @ polls)) =
      (tr @ [Enter_create_stack t, create_request g t,
             Enter_wait_for_stack (STACK_NAME g) 60] @ polls) @
        Enter_set_tags (STACK_NAME g) (BILLING_ENV g) (TEAM g) # rest"
    and req: "tag_request (STACK_NAME g) (BILLING_ENV g) (TEAM g) \<in> set rest"
    by blast
  show "b = True" by (rule b)
  show "\<exists>polls rest. snd (create_stack fuel ?Q g t tr) =
         tr @ [Enter_create_stack t, create_request g t,
               Enter_wait_for_stack (STACK_NAME g) 60] @ polls @
           Enter_set_tags (STACK_NAME g) (BILLING_ENV g) (TEAM g) # rest \<and>
         set polls \<subseteq> {Describe_stacks_request (STACK_NAME g), Sleep 60} \<and>
         tag_request (STACK_NAME g) (BILLING_ENV g) (TEAM g) \<in> set rest"
    apply (rule exI [of _ polls])
    apply (rule exI [of _ rest])
    using whole same rest polls req apply simp
    done
qed

text \<open>
  The theorem on a stack that is reported in progress twice and complete afterwards:
  \<^verbatim>\<open>create_stack\<close> returns true.
\<close>

theorem create_path_request_wait_and_tags_witness:
  "fst (create_stack 2
     (scripted (statuses_then [''CREATE_IN_PROGRESS'', ''CREATE_IN_PROGRESS''] ''CREATE_COMPLETE'')
        accepting_provider)
     (module_globals ''demo-app'' ''prod'' ''ops'') ''template'' []) = Return True \<and>
   (\<exists>polls rest. snd (create_stack 2
     (scripted (statuses_then [''CREATE_IN_PROGRESS'', ''CREATE_IN_PROGRESS''] ''CREATE_COMPLETE'')
        accepting_provider)
     (module_globals ''demo-app'' ''prod'' ''ops'') ''template'' []) =
       [Enter_create_stack ''template'',
        Create_stack_request ''demo-app'' [''CAPABILITY_IAM''] ''template'' ''DO_NOTHING'',
        Enter_wait_for_stack ''demo-app'' 60] @ polls @
        Enter_set_tags ''demo-app'' ''prod'' ''ops'' # rest \<and>
      set polls \<subseteq> {Describe_stacks_request ''demo-app'', Sleep 60} \<and>
      Stack_update_request ''demo-app'' [''CAPABILITY_IAM''] True
        [(''Billing_Env'', ''prod''), (''Team'', ''ops''), (''Project'', ''demo-app'')] \<in> set rest)"
proof -
  let ?g = "module_globals ''demo-app'' ''prod'' ''ops''"
  let ?Q = "scripted (statuses_then [''CREATE_IN_PROGRESS'', ''CREATE_IN_PROGRESS''] ''CREATE_COMPLETE'')
        accepting_provider"
  have r: "fst (create_stack 2 ?Q ?g ''template'' []) = Return True"
    by (simp add: script_defs more_provider_defs scripted_def statuses_then_def status_queries_def
          numeral_2_eq_2)
  from create_path_request_wait_and_tags [of 2 accepting_provider ?g "''template''" "[]" "''x''"
      "statuses_then [''CREATE_IN_PROGRESS'', ''CREATE_IN_PROGRESS''] ''CREATE_COMPLETE''" True] r
  have "\<exists>polls rest. snd (create_stack 2 ?Q ?g ''template'' []) =
         [] @ [Enter_create_stack ''template'', create_request ?g ''template'',
               Enter_wait_for_stack (STACK_NAME ?g) 60] @ polls @
           Enter_set_tags (STACK_NAME ?g) (BILLING_ENV ?g) (TEAM ?g) # rest \<and>
         set polls \<subseteq> {Describe_stacks_request (STACK_NAME ?g), Sleep 60} \<and>
         tag_request (STACK_NAME ?g) (BILLING_ENV ?g) (TEAM ?g) \<in> set rest"
    by blast
  with r show ?thesis
    by (simp add: create_request_def tag_request_def module_globals_def)
qed

subsection \<open>C8: termination of the waiter\<close>

text \<open>
  C8, as amended. On a scripted status sequence, \<^verbatim>\<open>wait_for_stack\<close> returns true for every
  large enough bound as soon as one of the statuses seen by the loop test (every
  \<open>queries_per_round g\<close>-th status: every one with \<^verbatim>\<open>DEBUG\<close> off, every second one with
  \<^verbatim>\<open>DEBUG\<close> on) is outside \<open>wait_list\<close>; this is the case in particular when the statuses
  stay outside \<open>wait_list\<close> from some query on. When every status seen by the loop test is
  in \<open>wait_list\<close>, the waiter is still polling under every bound, having slept once per
  loop test: there is no bound on its iterations and no timeout.
\<close>

theorem wait_for_stack_termination:
  "(sts (queries_per_round g * k) \<notin> set wait_list \<longrightarrow>
      (\<forall>fuel>k. fst (wait_for_stack fuel (scripted sts P) g stack_name wait_time []) =
         Return True)) \<and>
   ((\<exists>m. \<forall>i\<ge>m. sts i \<notin> set wait_list) \<longrightarrow>
      (\<exists>bound. \<forall>fuel>bound. fst (wait_for_stack fuel (scripted sts P) g stack_name wait_time []) =
         Return True)) \<and>
   ((\<forall>j. sts (queries_per_round g * j) \<in> set wait_list) \<longrightarrow>
      (\<forall>fuel. fst (wait_for_stack fuel (scripted sts P) g stack_name wait_time []) = Diverge \<and>
         sleeps (snd (wait_for_stack fuel (scripted sts P) g stack_name wait_time [])) = fuel))"
proof (intro conjI impI allI)
  fix fuel
  assume "sts (queries_per_round g * k) \<notin> set wait_list" and "k < fuel"
  then show "fst (wait_for_stack fuel (scripted sts P) g stack_name wait_time []) = Return True"
    using wait_for_stack_returns_if_some_test_outside [of sts "[]" g k fuel P stack_name wait_time]
    by (simp add: status_queries_def)
next
  assume "\<exists>m. \<forall>i\<ge>m. sts i \<notin> set wait_list"
  then obtain m where m: "\<forall>i\<ge>m. sts i \<notin> set wait_list" by blast
  have "m \<le> queries_per_round g * m"
    using queries_per_round_pos [of g] by simp
  with m have out: "sts (queries_per_round g * m) \<notin> set wait_list" by blast
  show "\<exists>bound. \<forall>fuel>bound.
      fst (wait_for_stack fuel (scripted sts P) g stack_name wait_time []) = Return True"
  proof (intro exI [of _ m] allI impI)
    fix fuel assume "m < fuel"
    with out show "fst (wait_for_stack fuel (scripted sts P) g stack_name wait_time []) = Return True"
      using wait_for_stack_returns_if_some_test_outside [of sts "[]" g m fuel P stack_name wait_time]
      by (simp add: status_queries_def)
  qed
next
  fix fuel
  assume busy: "\<forall>j. sts (queries_per_round g * j) \<in> set wait_list"
  have run: "wait_for_stack fuel (scripted sts P) g stack_name wait_time [] =
      (Diverge, [] @ Enter_wait_for_stack stack_name wait_time #
         concat (replicate fuel (loop_round g stack_name wait_time)))"
    by (rule wait_for_stack_diverges) (use busy in \<open>simp add: status_queries_def\<close>)
  show "fst (wait_for_stack fuel (scripted sts P) g stack_name wait_time []) = Diverge"
    by (simp add: run)
  show "sleeps (snd (wait_for_stack fuel (scripted sts P) g stack_name wait_time [])) = fuel"
    by (simp add: run counts_of_diverging_wait)
qed

text \<open>
  The theorem on a sequence that completes at the third query, and on a stack that stays
  in \<^verbatim>\<open>DELETE_IN_PROGRESS\<close>.
\<close>

theorem wait_for_stack_termination_witness:
  "statuses_then [''UPDATE_IN_PROGRESS'', ''UPDATE_IN_PROGRESS''] ''UPDATE_COMPLETE'' 2 \<notin>
     set wait_list \<and>
   fst (wait_for_stack 2
     (scripted (statuses_then [''UPDATE_IN_PROGRESS'', ''UPDATE_IN_PROGRESS''] ''UPDATE_COMPLETE'')
        accepting_provider)
     (module_globals ''demo-app'' ''prod'' ''ops'') ''demo-app'' 10 []) = Return True \<and>
   fst (wait_for_stack 9 (scripted (statuses_then [] ''DELETE_IN_PROGRESS'') accepting_provider)
     (module_globals ''demo-app'' ''prod'' ''ops'') ''demo-app'' 10 []) = Diverge \<and>
   sleeps (snd (wait_for_stack 9 (scripted (statuses_then [] ''DELETE_IN_PROGRESS'') accepting_provider)
     (module_globals ''demo-app'' ''prod'' ''ops'') ''demo-app'' 10 [])) = 9"
proof -
  let ?g = "module_globals ''demo-app'' ''prod'' ''ops''"
  let ?s = "statuses_then [''UPDATE_IN_PROGRESS'', ''UPDATE_IN_PROGRESS''] ''UPDATE_COMPLETE''"
  have q: "queries_per_round ?g = 2"
    by (simp add: queries_per_round_def module_globals_def)
  have a: "?s (queries_per_round ?g * 1) \<notin> set wait_list"
    by (simp add: q statuses_then_def wait_list_def)
  have b: "\<forall>j. statuses_then [] ''DELETE_IN_PROGRESS'' (queries_per_round ?g * j) \<in> set wait_list"
    by (simp add: statuses_then_def wait_list_def)
  have one: "(1::nat) < 2" by simp
  from wait_for_stack_termination [of ?s ?g 1 accepting_provider "''demo-app''" 10] a one
  have r1: "fst (wait_for_stack 2 (scripted ?s accepting_provider) ?g ''demo-app'' 10 []) = Return True"
    by blast
  from wait_for_stack_termination [of "statuses_then [] ''DELETE_IN_PROGRESS''" ?g 0
      accepting_provider "''demo-app''" 10] b
  have r2: "fst (wait_for_stack 9 (scripted (statuses_then [] ''DELETE_IN_PROGRESS'') accepting_provider)
        ?g ''demo-app'' 10 []) = Diverge \<and>
      sleeps (snd (wait_for_stack 9 (scripted (statuses_then [] ''DELETE_IN_PROGRESS'') accepting_provider)
        ?g ''demo-app'' 10 [])) = 9"
    by blast
  from a r1 r2 show ?thesis by (simp add: q)
qed

text \<open>
  C8 as stated fails on the script as shipped: in the sequence in-progress, complete,
  in-progress for ever, the second status is outside \<open>wait_list\<close>, but it is read by the
  query of line 165 and not by the loop test, and the waiter never returns.
\<close>

theorem settled_status_missed_by_loop_test:
  "statuses_then [''UPDATE_IN_PROGRESS'', ''UPDATE_COMPLETE''] ''UPDATE_IN_PROGRESS'' 1 =
     ''UPDATE_COMPLETE'' \<and>
   ''UPDATE_COMPLETE'' \<notin> set wait_list \<and>
   (\<forall>fuel. fst (wait_for_stack fuel
      (scripted (statuses_then [''UPDATE_IN_PROGRESS'', ''UPDATE_COMPLETE''] ''UPDATE_IN_PROGRESS'')
         accepting_provider)
      (module_globals ''demo-app'' ''prod'' ''ops'') ''demo-app'' 10 []) = Diverge)"
proof (intro conjI allI)
  fix fuel
  let ?g = "module_globals ''demo-app'' ''prod'' ''ops''"
  let ?s = "statuses_then [''UPDATE_IN_PROGRESS'', ''UPDATE_COMPLETE''] ''UPDATE_IN_PROGRESS''"
  have q: "queries_per_round ?g = 2"
    by (simp add: queries_per_round_def module_globals_def)
  have "wait_for_stack fuel (scripted ?s accepting_provider) ?g ''demo-app'' 10 [] =
      (Diverge, [] @ Enter_wait_for_stack ''demo-app'' 10 #
         concat (replicate fuel (loop_round ?g ''demo-app'' 10)))"
    by (rule wait_for_stack_diverges)
       (simp add: q status_queries_def statuses_then_two_even wait_list_def)
  then show "fst (wait_for_stack fuel (scripted ?s accepting_provider) ?g ''demo-app'' 10 []) = Diverge"
    by simp
qed (simp_all add: statuses_then_def wait_list_def)

subsection \<open>C9: what \<^verbatim>\<open>provision\<close> returns\<close>

text \<open>
  C9. A run of \<^verbatim>\<open>provision\<close> that returns true has entered the create path. When the
  template passes validation, the probe answers with the stack of the given name and
  \<^verbatim>\<open>update_stack\<close> returns, \<^verbatim>\<open>provision\<close> returns false, with the history \<^verbatim>\<open>update_stack\<close>
  left.
\<close>

theorem provision_returns_true_only_after_create:
  "(fst (provision fuel P g t []) = Return True \<longrightarrow>
      create_entries (snd (provision fuel P g t [])) = 1) \<and>
   (validate_template_result P [Enter_provision t, Enter_validate_template t] t = Inr () \<and>
    describe_stacks_result P (probe_history t) (STACK_NAME g) = Inr [s] \<and>
    StackName s = STACK_NAME g \<and>
    fst (update_stack fuel P g t (probe_history t @ [Describe_stacks_request (STACK_NAME g)])) =
      Return b \<longrightarrow>
      fst (provision fuel P g t []) = Return False \<and>
      snd (provision fuel P g t []) =
        snd (update_stack fuel P g t (probe_history t @ [Describe_stacks_request (STACK_NAME g)])))"
proof (intro conjI impI)
  assume "fst (provision fuel P g t []) = Return True"
  then show "create_entries (snd (provision fuel P g t [])) = 1"
    by (rule provision_true_needs_create)
next
  assume a: "validate_template_result P [Enter_provision t, Enter_validate_template t] t = Inr () \<and>
    describe_stacks_result P (probe_history t) (STACK_NAME g) = Inr [s] \<and>
    StackName s = STACK_NAME g \<and>
    fst (update_stack fuel P g t (probe_history t @ [Describe_stacks_request (STACK_NAME g)])) =
      Return b"
  then have "str_in (STACK_NAME g) (StackName s)" by (simp add: str_in_def)
  then have loop: "for_stacks fuel P g t [s] = bindM (update_stack fuel P g t) (\<lambda>b. returnM ())"
    by (rule for_stacks_single)
  have run: "provision fuel P g t [] =
      bindM (bindM (update_stack fuel P g t) (\<lambda>b. returnM ())) (\<lambda>u. returnM False)
        (probe_history t @ [Describe_stacks_request (STACK_NAME g)])"
    using provision_probe_answered [of P t g "[s]" fuel] a loop by simp
  from a show "fst (provision fuel P g t []) = Return False"
    by (simp add: run fst_bindM_returnM)
  show "snd (provision fuel P g t []) =
      snd (update_stack fuel P g t (probe_history t @ [Describe_stacks_request (STACK_NAME g)]))"
    by (simp add: run snd_bindM_returnM)
qed

text \<open>
  The theorem on a provider that accepts everything: the update and the tag update go
  through, \<^verbatim>\<open>update_stack\<close> returns true and \<^verbatim>\<open>provision\<close> returns false.
\<close>

theorem provision_returns_true_only_after_create_witness:
  "fst (update_stack 1 accepting_provider (module_globals ''demo-app'' ''prod'' ''ops'') ''template''
     (probe_history ''template'' @ [Describe_stacks_request ''demo-app''])) = Return True \<and>
   fst (provision 1 accepting_provider (module_globals ''demo-app'' ''prod'' ''ops'')
     ''template'' []) = Return False"
proof -
  let ?g = "module_globals ''demo-app'' ''prod'' ''ops''"
  let ?s = "\<lparr>StackName = ''demo-app'', StackStatus = ''CREATE_COMPLETE''\<rparr>"
  have n: "STACK_NAME ?g = ''demo-app''" by (simp add: module_globals_def)
  have v: "validate_template_result accepting_provider
      [Enter_provision ''template'', Enter_validate_template ''template''] ''template'' = Inr ()"
    by (simp add: provider_defs)
  have p: "describe_stacks_result accepting_provider (probe_history ''template'') (STACK_NAME ?g) =
      Inr [?s]"
    by (simp add: provider_defs)
  have u: "fst (update_stack 1 accepting_provider ?g ''template''
      (probe_history ''template'' @ [Describe_stacks_request (STACK_NAME ?g)])) = Return True"
    by (simp add: script_defs provider_defs)
  from provision_returns_true_only_after_create [of 1 accepting_provider ?g "''template''" ?s True]
    v p u n
  have "fst (provision 1 accepting_provider ?g ''template'' []) = Return False"
    by simp
  with u n show ?thesis by simp
qed

subsection \<open>C10: what \<^verbatim>\<open>set_tags\<close> returns\<close>

text \<open>
  C10. \<^verbatim>\<open>set_tags\<close> returns true exactly when its first wait returns, the provider accepts
  the tag request and the second wait returns. When the provider answers the tag request
  with an error whose message ends in \<^verbatim>\<open>to be performed.\<close>, \<^verbatim>\<open>set_tags\<close> returns false and
  the run goes on; with any other error message it raises \<^verbatim>\<open>SystemExit\<close> carrying the
  message, and the exit status is 1. The same holds for a \<^verbatim>\<open>ClientError\<close> raised anywhere
  in the body of the \<^verbatim>\<open>try\<close>.
\<close>

theorem set_tags_result:
  "(fst (set_tags fuel P g n v tm tr) = Return True \<longleftrightarrow>
      (\<exists>tr1. wait_for_stack fuel P g n 10 (tr @ [Enter_set_tags n v tm]) = (Return True, tr1) \<and>
             tag_answer P tr1 n v tm = Inr () \<and>
             fst (wait_for_stack fuel P g n 10 (tr1 @ [tag_request n v tm])) = Return True)) \<and>
   (wait_for_stack fuel P g n 10 (tr @ [Enter_set_tags n v tm]) = (Return True, tr1) \<and>
    tag_answer P tr1 n v tm = Inl err \<and> endswith err ''to be performed.'' \<longrightarrow>
      set_tags fuel P g n v tm tr = (Return False, tr1 @ [tag_request n v tm])) \<and>
   (wait_for_stack fuel P g n 10 (tr @ [Enter_set_tags n v tm]) = (Return True, tr1) \<and>
    tag_answer P tr1 n v tm = Inl err \<and> \<not> endswith err ''to be performed.'' \<longrightarrow>
      set_tags fuel P g n v tm tr = (Raise (SystemExit err), tr1 @ [tag_request n v tm]) \<and>
      exit_status (fst (set_tags fuel P g n v tm tr)) = Some 1 \<and>
      exit_message (fst (set_tags fuel P g n v tm tr)) = Some err) \<and>
   (set_tags_try fuel P g n v tm (tr @ [Enter_set_tags n v tm]) = (Raise (ClientError err), tr2) \<longrightarrow>
      set_tags fuel P g n v tm tr =
        (if endswith err ''to be performed.'' then (Return False, tr2)
         else (Raise (SystemExit err), tr2)))"
proof (intro conjI impI)
  show "fst (set_tags fuel P g n v tm tr) = Return True \<longleftrightarrow>
      (\<exists>tr1. wait_for_stack fuel P g n 10 (tr @ [Enter_set_tags n v tm]) = (Return True, tr1) \<and>
             tag_answer P tr1 n v tm = Inr () \<and>
             fst (wait_for_stack fuel P g n 10 (tr1 @ [tag_request n v tm])) = Return True)"
    by (rule set_tags_true_iff)
next
  assume a: "wait_for_stack fuel P g n 10 (tr @ [Enter_set_tags n v tm]) = (Return True, tr1) \<and>
    tag_answer P tr1 n v tm = Inl err \<and> endswith err ''to be performed.''"
  then show "set_tags fuel P g n v tm tr = (Return False, tr1 @ [tag_request n v tm])"
    using set_tags_tag_error [of fuel P g n tr v tm tr1 err] by simp
next
  assume a: "wait_for_stack fuel P g n 10 (tr @ [Enter_set_tags n v tm]) = (Return True, tr1) \<and>
    tag_answer P tr1 n v tm = Inl err \<and> \<not> endswith err ''to be performed.''"
  then show run: "set_tags fuel P g n v tm tr = (Raise (SystemExit err), tr1 @ [tag_request n v tm])"
    using set_tags_tag_error [of fuel P g n tr v tm tr1 err] by simp
  show "exit_status (fst (set_tags fuel P g n v tm tr)) = Some 1" by (simp add: run)
  show "exit_message (fst (set_tags fuel P g n v tm tr)) = Some err" by (simp add: run)
next
  assume "set_tags_try fuel P g n v tm (tr @ [Enter_set_tags n v tm]) = (Raise (ClientError err), tr2)"
  then show "set_tags fuel P g n v tm tr =
        (if endswith err ''to be performed.'' then (Return False, tr2)
         else (Raise (SystemExit err), tr2))"
    by (simp add: set_tags_def run_defs)
qed

text \<open>
  The theorem on a provider answering the tag request with the no-updates error, on one
  answering with another error, and on one accepting it.
\<close>

theorem set_tags_result_witness:
  "set_tags 1 (failing_updates ''No updates are to be performed.'' ''No updates are to be performed.'')
     (module_globals ''demo-app'' ''prod'' ''ops'') ''demo-app'' ''prod'' ''ops'' [] =
     (Return False,
      [Enter_set_tags ''demo-app'' ''prod'' ''ops'', Enter_wait_for_stack ''demo-app'' 10,
       Describe_stacks_request ''demo-app'', tag_request ''demo-app'' ''prod'' ''ops'']) \<and>
   set_tags 1 (failing_updates ''AccessDenied'' ''AccessDenied'')
     (module_globals ''demo-app'' ''prod'' ''ops'') ''demo-app'' ''prod'' ''ops'' [] =
     (Raise (SystemExit ''AccessDenied''),
      [Enter_set_tags ''demo-app'' ''prod'' ''ops'', Enter_wait_for_stack ''demo-app'' 10,
       Describe_stacks_request ''demo-app'', tag_request ''demo-app'' ''prod'' ''ops'']) \<and>
   fst (set_tags 1 accepting_provider
     (module_globals ''demo-app'' ''prod'' ''ops'') ''demo-app'' ''prod'' ''ops'' []) = Return True"
proof -
  let ?g = "module_globals ''demo-app'' ''prod'' ''ops''"
  let ?noop = "''No updates are to be performed.''"
  let ?tr1 = "[Enter_set_tags ''demo-app'' ''prod'' ''ops'', Enter_wait_for_stack ''demo-app'' 10,
       Describe_stacks_request ''demo-app'']"
  have w1: "wait_for_stack 1 (failing_updates ?noop ?noop) ?g ''demo-app'' 10
      ([] @ [Enter_set_tags ''demo-app'' ''prod'' ''ops'']) = (Return True, ?tr1)"
    by (simp add: script_defs more_provider_defs)
  have a1: "tag_answer (failing_updates ?noop ?noop) ?tr1 ''demo-app'' ''prod'' ''ops'' = Inl ?noop"
    by (simp add: more_provider_defs)
  have e1: "endswith ?noop ''to be performed.''"
    by (simp add: more_provider_defs)
  have w2: "wait_for_stack 1 (failing_updates ''AccessDenied'' ''AccessDenied'') ?g ''demo-app'' 10
      ([] @ [Enter_set_tags ''demo-app'' ''prod'' ''ops'']) = (Return True, ?tr1)"
    by (simp add: script_defs more_provider_defs)
  have a2: "tag_answer (failing_updates ''AccessDenied'' ''AccessDenied'') ?tr1
      ''demo-app'' ''prod'' ''ops'' = Inl ''AccessDenied''"
    by (simp add: more_provider_defs)
  have e2: "\<not> endswith ''AccessDenied'' ''to be performed.''"
    by (simp add: more_provider_defs)
  have w3: "wait_for_stack 1 accepting_provider ?g ''demo-app'' 10
      ([] @ [Enter_set_tags ''demo-app'' ''prod'' ''ops'']) = (Return True, ?tr1)"
    by (simp add: script_defs more_provider_defs)
  have a3: "tag_answer accepting_provider ?tr1 ''demo-app'' ''prod'' ''ops'' = Inr ()"
    by (simp add: more_provider_defs)
  have w4: "fst (wait_for_stack 1 accepting_provider ?g ''demo-app'' 10
      (?tr1 @ [tag_request ''demo-app'' ''prod'' ''ops''])) = Return True"
    by (simp add: script_defs more_provider_defs)
  from set_tags_result [of 1 "failing_updates ?noop ?noop" ?g "''demo-app''" "''prod''" "''ops''"
      "[]" ?tr1 ?noop] w1 a1 e1
  have r1: "set_tags 1 (failing_updates ?noop ?noop) ?g ''demo-app'' ''prod'' ''ops'' [] =
      (Return False, ?tr1 @ [tag_request ''demo-app'' ''prod'' ''ops''])"
    by blast
  from set_tags_result [of 1 "failing_updates ''AccessDenied'' ''AccessDenied''" ?g "''demo-app''"
      "''prod''" "''ops''" "[]" ?tr1 "''AccessDenied''"] w2 a2 e2
  have r2: "set_tags 1 (failing_updates ''AccessDenied'' ''AccessDenied'') ?g
      ''demo-app'' ''prod'' ''ops'' [] =
      (Raise (SystemExit ''AccessDenied''), ?tr1 @ [tag_request ''demo-app'' ''prod'' ''ops''])"
    by blast
  from set_tags_result [of 1 accepting_provider ?g "''demo-app''" "''prod''" "''ops''" "[]"]
    w3 a3 w4
  have r3: "fst (set_tags 1 accepting_provider ?g ''demo-app'' ''prod'' ''ops'' []) = Return True"
    by blast
  from r1 r2 r3 show ?thesis by simp
qed

end
